theory Spec2Isabelle
  imports Complex_Main "HOL-Library.Log_Nat"
begin

section \<open>The cart state engine of \<^verbatim>\<open>cart-refactored-functional.js\<close>\<close>

text \<open>
  The engine is the block of pure functions of \<^verbatim>\<open>src/cart-refactored-functional.js\<close>
  (lines 52 to 218) together with the storage readers (lines 264 to 298).

  Two views of the data are used, as in the source:
  \<^item> the typed view of the JSDoc declarations (\<^verbatim>\<open>CartItem\<close>, \<^verbatim>\<open>CartState\<close>, \<^verbatim>\<open>Product\<close>), on
    which the transitions and the aggregates work. A field declared \<^verbatim>\<open>number\<close> holds any
    JavaScript number, and \<^verbatim>\<open>+\<close>, \<^verbatim>\<open>*\<close> and the comparisons are those of IEEE 754 doubles;
  \<^item> the untyped view of what \<^verbatim>\<open>JSON.parse\<close> hands to the validators, where any
    value can stand in any place.
\<close>

subsection \<open>JavaScript numbers\<close>

text \<open>
  A number is a double: a finite value, which is a rational, or an infinity, or NaN. The
  two zeros are not told apart: nothing in the engine divides by a number or prints a
  sign of zero. \<open>Fin q\<close> stands for a double only when \<open>q\<close> is representable
  (\<open>is_double\<close> below); the operations always return such values.
\<close>

datatype jsnum = Fin rat | PosInf | NegInf | NaN

text \<open>The binary exponent of a positive rational \<open>x\<close>: the \<open>e\<close> with \<open>2^e \<le> x < 2^(e+1)\<close>,
  found from the bit lengths of numerator and denominator.\<close>

definition floor_log2 :: "rat \<Rightarrow> int" where
  "floor_log2 x =
     (let (a, b) = quotient_of x;
          e0 = bitlen a - bitlen b
      in if 2 powi e0 \<le> x then e0 else e0 - 1)"

text \<open>Rounding to the nearest integer, a tie going to the even one.\<close>

definition round_half_even :: "rat \<Rightarrow> int" where
  "round_half_even y =
     (let f = \<lfloor>y\<rfloor>; d = y - of_int f
      in if d < 1 / 2 then f
         else if d > 1 / 2 then f + 1
         else if even f then f else f + 1)"

definition double_overflow :: rat where
  "double_overflow = 2 powi 1024"

text \<open>
  Rounding of an exact result to binary64, round-to-nearest, ties-to-even: 53 significant
  bits, the spacing \<open>2^(e - 52)\<close> in the binade of exponent \<open>e\<close> and \<open>2^(-1074)\<close> below the
  normal range, and an infinity from \<open>2^1024\<close> on.
\<close>

definition round_double :: "rat \<Rightarrow> jsnum" where
  "round_double x =
     (if x = 0 then Fin 0
      else
        let e = floor_log2 \<bar>x\<bar>;
            p = max (e - 52) (- 1074);
            m = round_half_even (\<bar>x\<bar> / 2 powi p);
            r = of_int m * 2 powi p
        in if r \<ge> double_overflow then (if x > 0 then PosInf else NegInf)
           else Fin (sgn x * r))"

fun is_double :: "jsnum \<Rightarrow> bool" where
  "is_double (Fin q) = (round_double q = Fin q)"
| "is_double x = True"

text \<open>\<^verbatim>\<open>x + y\<close> on numbers.\<close>

fun js_add :: "jsnum \<Rightarrow> jsnum \<Rightarrow> jsnum" where
  "js_add (Fin a) (Fin b) = round_double (a + b)"
| "js_add NaN y = NaN"
| "js_add x NaN = NaN"
| "js_add PosInf NegInf = NaN"
| "js_add NegInf PosInf = NaN"
| "js_add PosInf y = PosInf"
| "js_add x PosInf = PosInf"
| "js_add NegInf y = NegInf"
| "js_add x NegInf = NegInf"

text \<open>\<^verbatim>\<open>x * y\<close> on numbers.\<close>

fun js_mul :: "jsnum \<Rightarrow> jsnum \<Rightarrow> jsnum" where
  "js_mul (Fin a) (Fin b) = round_double (a * b)"
| "js_mul NaN y = NaN"
| "js_mul x NaN = NaN"
| "js_mul PosInf (Fin b) = (if b = 0 then NaN else if 0 < b then PosInf else NegInf)"
| "js_mul NegInf (Fin b) = (if b = 0 then NaN else if 0 < b then NegInf else PosInf)"
| "js_mul (Fin a) PosInf = (if a = 0 then NaN else if 0 < a then PosInf else NegInf)"
| "js_mul (Fin a) NegInf = (if a = 0 then NaN else if 0 < a then NegInf else PosInf)"
| "js_mul PosInf PosInf = PosInf"
| "js_mul PosInf NegInf = NegInf"
| "js_mul NegInf PosInf = NegInf"
| "js_mul NegInf NegInf = PosInf"

text \<open>\<^verbatim>\<open>x <= y\<close> and \<^verbatim>\<open>x >= y\<close> on numbers: false as soon as one side is NaN.\<close>

fun js_le :: "jsnum \<Rightarrow> jsnum \<Rightarrow> bool" where
  "js_le (Fin a) (Fin b) = (a \<le> b)"
| "js_le NaN y = False"
| "js_le x NaN = False"
| "js_le NegInf y = True"
| "js_le x PosInf = True"
| "js_le PosInf y = False"
| "js_le x NegInf = False"

definition js_ge :: "jsnum \<Rightarrow> jsnum \<Rightarrow> bool" where
  "js_ge x y = js_le y x"

text \<open>\<^verbatim>\<open>x > 0\<close> on a number: false for NaN.\<close>

fun gt_zero :: "jsnum \<Rightarrow> bool" where
  "gt_zero (Fin q) = (q > 0)"
| "gt_zero PosInf = True"
| "gt_zero NegInf = False"
| "gt_zero NaN = False"

subsection \<open>Typed records\<close>

text \<open>The fields \<^verbatim>\<open>id\<close>, \<^verbatim>\<open>name\<close>, \<^verbatim>\<open>price\<close> and \<^verbatim>\<open>image\<close> occur in both object shapes, so
  each record prefixes them.\<close>

record Product =
  product_id :: string
  product_name :: string
  product_price :: jsnum
  product_image :: string
  product_description :: string

record CartItem =
  item_id :: string
  item_name :: string
  item_price :: jsnum
  item_image :: string
  item_quantity :: jsnum

text \<open>\<^verbatim>\<open>{ items: ... }\<close>. The engine holds a list of cart items there; the storage reader
  puts the parsed value there before it is validated.\<close>

record 'a CartState =
  items :: 'a

record ShippingConfig =
  FREE_SHIPPING_THRESHOLD :: jsnum
  SHIPPING_FEE :: jsnum

definition SHIPPING_CONFIG :: ShippingConfig where
  "SHIPPING_CONFIG = \<lparr>FREE_SHIPPING_THRESHOLD = Fin 5000, SHIPPING_FEE = Fin 100\<rparr>"

record DerivedData =
  totalCount :: jsnum
  totalPrice :: jsnum
  shippingFee :: jsnum
  finalTotal :: jsnum

subsection \<open>Pure functions of the cart logic\<close>

definition createEmptyCart :: "CartItem list CartState" where
  "createEmptyCart = \<lparr>items = []\<rparr>"

text \<open>\<^verbatim>\<open>items.reduce((total, item) => total + item.quantity, 0)\<close> is a left fold with the
  addition of doubles.\<close>

definition calculateTotalCount :: "CartItem list \<Rightarrow> jsnum" where
  "calculateTotalCount its = foldl (\<lambda>acc item. js_add acc (item_quantity item)) (Fin 0) its"

definition calculateTotalPrice :: "CartItem list \<Rightarrow> jsnum" where
  "calculateTotalPrice its =
     foldl (\<lambda>acc item. js_add acc (js_mul (item_price item) (item_quantity item))) (Fin 0) its"

definition calculateShippingFee :: "jsnum \<Rightarrow> jsnum" where
  "calculateShippingFee total_price =
     (if js_ge total_price (FREE_SHIPPING_THRESHOLD SHIPPING_CONFIG)
      then Fin 0
      else SHIPPING_FEE SHIPPING_CONFIG)"

definition calculateFinalTotal :: "jsnum \<Rightarrow> jsnum \<Rightarrow> jsnum" where
  "calculateFinalTotal total_price shipping_fee = js_add total_price shipping_fee"

definition calculateCartDerivedData :: "CartItem list CartState \<Rightarrow> DerivedData" where
  "calculateCartDerivedData cartState =
     (let total_count = calculateTotalCount (items cartState);
          total_price = calculateTotalPrice (items cartState);
          shipping_fee = calculateShippingFee total_price;
          final_total = calculateFinalTotal total_price shipping_fee
      in \<lparr>totalCount = total_count, totalPrice = total_price,
          shippingFee = shipping_fee, finalTotal = final_total\<rparr>)"

text \<open>\<^verbatim>\<open>Array.prototype.find\<close> returns the first match, or \<^verbatim>\<open>undefined\<close> (here \<open>None\<close>).\<close>

definition findCartItemById :: "CartItem list \<Rightarrow> string \<Rightarrow> CartItem option" where
  "findCartItemById its productId = find (\<lambda>item. item_id item = productId) its"

definition createCartItem :: "Product \<Rightarrow> jsnum \<Rightarrow> CartItem" where
  "createCartItem product qty =
     \<lparr>item_id = product_id product,
      item_name = product_name product,
      item_price = product_price product,
      item_image = product_image product,
      item_quantity = qty\<rparr>"

text \<open>The test \<^verbatim>\<open>if (existingItem)\<close> is on an object or \<^verbatim>\<open>undefined\<close>; an object is always
  truthy, so the branch taken is exactly whether \<^verbatim>\<open>find\<close> found something.\<close>

definition addItemToCart :: "CartItem list CartState \<Rightarrow> Product \<Rightarrow> CartItem list CartState" where
  "addItemToCart cartState product =
     (case findCartItemById (items cartState) (product_id product) of
        Some existingItem \<Rightarrow>
          cartState\<lparr>items :=
            map (\<lambda>item. if item_id item = product_id product
                         then item\<lparr>item_quantity := js_add (item_quantity item) (Fin 1)\<rparr>
                         else item)
                (items cartState)\<rparr>
      | None \<Rightarrow>
          cartState\<lparr>items := items cartState @ [createCartItem product (Fin 1)]\<rparr>)"

definition removeItemFromCart :: "CartItem list CartState \<Rightarrow> string \<Rightarrow> CartItem list CartState" where
  "removeItemFromCart cartState productId =
     cartState\<lparr>items := filter (\<lambda>item. item_id item \<noteq> productId) (items cartState)\<rparr>"

text \<open>\<^verbatim>\<open>newQuantity <= 0\<close> is false for NaN, which is then stored like a positive number.\<close>

definition updateItemQuantity ::
  "CartItem list CartState \<Rightarrow> string \<Rightarrow> jsnum \<Rightarrow> CartItem list CartState" where
  "updateItemQuantity cartState productId newQuantity =
     (if js_le newQuantity (Fin 0) then removeItemFromCart cartState productId
      else cartState\<lparr>items :=
             map (\<lambda>item. if item_id item = productId
                          then item\<lparr>item_quantity := newQuantity\<rparr>
                          else item)
                 (items cartState)\<rparr>)"

definition clearCart :: "CartItem list CartState \<Rightarrow> CartItem list CartState" where
  "clearCart cartState = createEmptyCart"

subsection \<open>The invariant of a cart state\<close>

text \<open>
  The source states no invariant; this is the one of the specification's data model, as a
  predicate on states: every line item has a quantity of at least 1 and no two line items
  share an id. (That the order of insertion is kept relates two states, and is stated with
  each transition.)
\<close>

definition cart_inv :: "CartItem list CartState \<Rightarrow> bool" where
  "cart_inv cartState \<longleftrightarrow>
     list_all (\<lambda>item. js_ge (item_quantity item) (Fin 1)) (items cartState) \<and>
     distinct (map item_id (items cartState))"

subsection \<open>Untyped values and the validators\<close>

text \<open>
  What \<^verbatim>\<open>JSON.parse\<close> returns and what the validators inspect (\<^verbatim>\<open>JSON.parse\<close> yields no
  NaN, but \<^verbatim>\<open>validateCart\<close> applies the same validator to the state in memory). An object
  is the list of its own properties; a property that is not there reads as
  \<^verbatim>\<open>undefined\<close>.
\<close>

datatype jsval =
    JUndefined
  | JNull
  | JBool bool
  | JNum jsnum
  | JStr string
  | JArr "jsval list"
  | JObj "(string \<times> jsval) list"

datatype jstype = TUndefined | TObject | TBoolean | TNumber | TString

fun typeof :: "jsval \<Rightarrow> jstype" where
  "typeof JUndefined = TUndefined"
| "typeof JNull = TObject"
| "typeof (JBool b) = TBoolean"
| "typeof (JNum n) = TNumber"
| "typeof (JStr s) = TString"
| "typeof (JArr xs) = TObject"
| "typeof (JObj fs) = TObject"

text \<open>ToBoolean: \<^verbatim>\<open>undefined\<close>, \<^verbatim>\<open>null\<close>, \<^verbatim>\<open>false\<close>, \<^verbatim>\<open>0\<close>, \<^verbatim>\<open>NaN\<close> and \<^verbatim>\<open>''\<close> are falsy.\<close>

fun truthy :: "jsval \<Rightarrow> bool" where
  "truthy JUndefined = False"
| "truthy JNull = False"
| "truthy (JBool b) = b"
| "truthy (JNum n) = (n \<noteq> Fin 0 \<and> n \<noteq> NaN)"
| "truthy (JStr s) = (s \<noteq> [])"
| "truthy (JArr xs) = True"
| "truthy (JObj fs) = True"

text \<open>
  \<^verbatim>\<open>item.key\<close> on a truthy value. Only own data properties of objects are modelled:
  strings, numbers, booleans and arrays have no property named \<^verbatim>\<open>id\<close>, \<^verbatim>\<open>name\<close>,
  \<^verbatim>\<open>price\<close> or \<^verbatim>\<open>quantity\<close>, the four keys the validator reads. The validator reads
  properties only behind the guard \<^verbatim>\<open>item &&\<close>, so never on \<^verbatim>\<open>null\<close> or
  \<^verbatim>\<open>undefined\<close>, where JavaScript would throw.
\<close>

fun getProp :: "jsval \<Rightarrow> string \<Rightarrow> jsval" where
  "getProp (JObj fs) key = (case map_of fs key of Some v \<Rightarrow> v | None \<Rightarrow> JUndefined)"
| "getProp v key = JUndefined"

text \<open>
  \<^verbatim>\<open>isValidCartItem\<close> is an \<^verbatim>\<open>&&\<close> chain; \<^verbatim>\<open>every\<close> reads its value as a boolean, which is
  what this function returns. \<^verbatim>\<open>item.quantity > 0\<close> is reached only when
  \<^verbatim>\<open>item.quantity\<close> is a number.
\<close>

definition isValidCartItem :: "jsval \<Rightarrow> bool" where
  "isValidCartItem item \<longleftrightarrow>
     truthy item \<and>
     typeof (getProp item ''id'') = TString \<and>
     typeof (getProp item ''name'') = TString \<and>
     typeof (getProp item ''price'') = TNumber \<and>
     typeof (getProp item ''quantity'') = TNumber \<and>
     (case getProp item ''quantity'' of JNum q \<Rightarrow> gt_zero q | _ \<Rightarrow> False)"

text \<open>The state object itself is truthy; \<^verbatim>\<open>Array.isArray\<close> holds of arrays only.\<close>

definition isValidCartState :: "jsval CartState \<Rightarrow> bool" where
  "isValidCartState cartState \<longleftrightarrow>
     (case items cartState of
        JArr xs \<Rightarrow> list_all isValidCartItem xs
      | _ \<Rightarrow> False)"

subsection \<open>Reading the cart from local storage\<close>

text \<open>
  \<^verbatim>\<open>localStorage.getItem\<close> and \<^verbatim>\<open>JSON.parse\<close> belong to the platform and are parameters
  here. Either may throw; \<^verbatim>\<open>getItem\<close> returns \<^verbatim>\<open>null\<close> (\<open>None\<close>) for a key that is not
  stored.
\<close>

datatype 'a js_result = Throws | Returns 'a

definition STORAGE_KEYS_CART :: string where
  "STORAGE_KEYS_CART = ''shoppingCart''"

text \<open>\<^verbatim>\<open>item ? JSON.parse(item) : defaultValue\<close> inside \<^verbatim>\<open>try\<close>; the \<^verbatim>\<open>catch\<close> returns the
  default. \<^verbatim>\<open>null\<close> and the empty string are falsy.\<close>

definition safeGetFromStorage ::
  "(string \<Rightarrow> string option js_result) \<Rightarrow> (string \<Rightarrow> jsval js_result) \<Rightarrow>
   string \<Rightarrow> jsval \<Rightarrow> jsval" where
  "safeGetFromStorage getItem JSON_parse key defaultValue =
     (case getItem key of
        Throws \<Rightarrow> defaultValue
      | Returns None \<Rightarrow> defaultValue
      | Returns (Some item) \<Rightarrow>
          (if item = [] then defaultValue
           else (case JSON_parse item of
                   Throws \<Rightarrow> defaultValue
                 | Returns v \<Rightarrow> v)))"

text \<open>\<^verbatim>\<open>createEmptyCart\<close> again, at the type of the values the reader handles.\<close>

definition createEmptyCart_raw :: "jsval CartState" where
  "createEmptyCart_raw = \<lparr>items = JArr []\<rparr>"

definition loadCartFromStorage ::
  "(string \<Rightarrow> string option js_result) \<Rightarrow> (string \<Rightarrow> jsval js_result) \<Rightarrow> jsval CartState" where
  "loadCartFromStorage getItem JSON_parse =
     (let savedItems = safeGetFromStorage getItem JSON_parse STORAGE_KEYS_CART (JArr []);
          cartState = \<lparr>items = savedItems\<rparr>
      in if isValidCartState cartState then cartState else createEmptyCart_raw)"

subsection \<open>The specification's predicates\<close>

text \<open>
  A well-formed product in the words of the specification: id and name are non-empty
  strings and the price is a positive number (that the image is a string is in the type).
  \<^verbatim>\<open>cart-refactored-functional.js\<close> has no such check; the predicate serves to state that
  \<^verbatim>\<open>addItemToCart\<close> takes products that are not well-formed.
\<close>

definition well_formed_product :: "Product \<Rightarrow> bool" where
  "well_formed_product p \<longleftrightarrow>
     product_id p \<noteq> [] \<and> product_name p \<noteq> [] \<and> gt_zero (product_price p)"

text \<open>A number is an integer when it is finite and equal to its floor.\<close>

definition is_integer :: "jsnum \<Rightarrow> bool" where
  "is_integer n = (case n of Fin q \<Rightarrow> of_int \<lfloor>q\<rfloor> = q | _ \<Rightarrow> False)"

text \<open>
  What the specification says \<^verbatim>\<open>isValid\<close> checks, word for word: a non-empty string id, a
  non-empty string name, a number price and an integer quantity above 0. To be compared
  with \<^verbatim>\<open>isValidCartItem\<close> and \<^verbatim>\<open>isValidCartState\<close> above, which come from the source.
\<close>

definition claimed_valid_item :: "jsval \<Rightarrow> bool" where
  "claimed_valid_item item \<longleftrightarrow>
     (case getProp item ''id'' of JStr i \<Rightarrow> i \<noteq> [] | _ \<Rightarrow> False) \<and>
     (case getProp item ''name'' of JStr n \<Rightarrow> n \<noteq> [] | _ \<Rightarrow> False) \<and>
     typeof (getProp item ''price'') = TNumber \<and>
     (case getProp item ''quantity'' of JNum q \<Rightarrow> is_integer q \<and> gt_zero q | _ \<Rightarrow> False)"

definition claimed_valid_state :: "jsval CartState \<Rightarrow> bool" where
  "claimed_valid_state cartState \<longleftrightarrow>
     (case items cartState of
        JArr xs \<Rightarrow> list_all claimed_valid_item xs
      | _ \<Rightarrow> False)"

text \<open>
  The sums of the specification, in exact arithmetic: the total count is the sum of the
  quantities and the subtotal the sum of price times quantity, over the finite values of
  the line items. The code's \<^verbatim>\<open>calculateTotalCount\<close> and \<^verbatim>\<open>calculateTotalPrice\<close> round after
  every operation.
\<close>

fun num_value :: "jsnum \<Rightarrow> rat" where
  "num_value (Fin q) = q"
| "num_value x = 0"


definition exact_subtotal :: "CartItem list \<Rightarrow> rat" where
  "exact_subtotal its =
     sum_list (map (\<lambda>item. num_value (item_price item) * num_value (item_quantity item)) its)"

text \<open>A number whose value is a non-negative integer, and one that is also below \<open>2^53\<close>:
  what \<^verbatim>\<open>Number.isSafeInteger\<close> accepts, from 0 on.\<close>

definition natural_valued :: "jsnum \<Rightarrow> bool" where
  "natural_valued n = (case n of Fin q \<Rightarrow> of_int \<lfloor>q\<rfloor> = q \<and> 0 \<le> q | _ \<Rightarrow> False)"

definition safe_natural :: "jsnum \<Rightarrow> bool" where
  "safe_natural n =
     (case n of Fin q \<Rightarrow> of_int \<lfloor>q\<rfloor> = q \<and> 0 \<le> q \<and> q < 2 ^ 53 | _ \<Rightarrow> False)"

subsection \<open>Sample data\<close>

text \<open>Concrete products and carts on which the theorems below are instantiated.\<close>

definition phone :: Product where
  "phone = \<lparr>product_id = ''1'', product_name = ''iPhone 15 Pro'', product_price = Fin 36900,
     product_image = ''phone.png'', product_description = ''A17 Pro''\<rparr>"

definition phone_repriced :: Product where
  "phone_repriced = \<lparr>product_id = ''1'', product_name = ''iPhone 15 Pro (sale)'',
     product_price = Fin 30000, product_image = ''sale.png'', product_description = ''A17 Pro''\<rparr>"

definition pad :: Product where
  "pad = \<lparr>product_id = ''2'', product_name = ''iPad Air'', product_price = Fin 7490,
     product_image = ''pad.png'', product_description = ''M2''\<rparr>"

definition phone_line :: "rat \<Rightarrow> CartItem" where
  "phone_line n = \<lparr>item_id = ''1'', item_name = ''iPhone 15 Pro'', item_price = Fin 36900,
     item_image = ''phone.png'', item_quantity = Fin n\<rparr>"

definition pad_line :: "rat \<Rightarrow> CartItem" where
  "pad_line n = \<lparr>item_id = ''2'', item_name = ''iPad Air'', item_price = Fin 7490,
     item_image = ''pad.png'', item_quantity = Fin n\<rparr>"

text \<open>Line items with a given id, price and quantity, for the cases in which the size of
  the numbers matters.\<close>

definition plain_line :: "string \<Rightarrow> rat \<Rightarrow> rat \<Rightarrow> CartItem" where
  "plain_line i p q = \<lparr>item_id = i, item_name = ''item'', item_price = Fin p,
     item_image = ''item.png'', item_quantity = Fin q\<rparr>"

text \<open>A product with empty id and name and a negative price.\<close>

definition nameless :: Product where
  "nameless = \<lparr>product_id = [], product_name = [], product_price = Fin (- 5),
     product_image = [], product_description = []\<rparr>"

text \<open>
  Line items as \<^verbatim>\<open>JSON.parse\<close> returns them; a text as \<^verbatim>\<open>saveCartToStorage\<close> would store it; a
  storage that holds that text under the cart's key; and, for a value \<open>v\<close>, a parser that
  returns \<open>v\<close> on that text and throws on any other.
\<close>

definition raw_line :: "string \<Rightarrow> string \<Rightarrow> rat \<Rightarrow> rat \<Rightarrow> jsval" where
  "raw_line i n p q =
     JObj [(''id'', JStr i), (''name'', JStr n), (''price'', JNum (Fin p)),
           (''image'', JStr ''phone.png''), (''quantity'', JNum (Fin q))]"

definition duplicate_snapshot :: jsval where
  "duplicate_snapshot = JArr [raw_line ''1'' ''Phone'' 36900 1, raw_line ''1'' ''Phone'' 36900 2]"

definition stored_text :: string where
  \<open>stored_text = ''[{"id":"1","name":"Phone","price":36900,"image":"phone.png","quantity":1},{"id":"1","name":"Phone","price":36900,"image":"phone.png","quantity":2}]''\<close>

definition sample_getItem :: "string \<Rightarrow> string option js_result" where
  "sample_getItem key =
     (if key = STORAGE_KEYS_CART then Returns (Some stored_text) else Returns None)"

definition sample_parse :: "jsval \<Rightarrow> string \<Rightarrow> jsval js_result" where
  "sample_parse v saved = (if saved = stored_text then Returns v else Throws)"

section \<open>Rounding to a double\<close>

text \<open>The exponent that \<open>floor_log2\<close> computes is the binary exponent, and the only one.\<close>

lemma bitlen_powi_bounds:
  assumes "0 < a"
  shows "(2::rat) powi (bitlen a - 1) \<le> of_int a" and "of_int a < (2::rat) powi bitlen a"
proof -
  from assms have ge1: "1 \<le> bitlen a"
    by (simp add: bitlen_alt_def)
  from bitlen_bounds [OF assms]
  have lo: "2 ^ nat (bitlen a - 1) \<le> a" and hi: "a < 2 ^ nat (bitlen a)"
    by simp_all
  from lo have "(of_int (2 ^ nat (bitlen a - 1)) :: rat) \<le> of_int a"
    by (simp only: of_int_le_iff)
  with ge1 show "(2::rat) powi (bitlen a - 1) \<le> of_int a"
    by (simp add: power_int_nonneg_exp)
  from hi have "(of_int a :: rat) < of_int (2 ^ nat (bitlen a))"
    by (simp only: of_int_less_iff)
  with ge1 show "of_int a < (2::rat) powi bitlen a"
    by (simp add: power_int_nonneg_exp)
qed

lemma floor_log2_bounds:
  assumes "0 < x"
  shows "2 powi floor_log2 x \<le> x" and "x < 2 powi (floor_log2 x + 1)"
proof -
  obtain a b where q: "quotient_of x = (a, b)"
    by (cases "quotient_of x")
  then have b: "0 < b" and x: "x = of_int a / of_int b"
    by (simp_all add: quotient_of_denom_pos quotient_of_div)
  with assms have a: "0 < a"
    by (simp add: zero_less_divide_iff)
  define e0 where "e0 = bitlen a - bitlen b"
  note A = bitlen_powi_bounds [OF a] and B = bitlen_powi_bounds [OF b]
  have bpos: "(0::rat) < of_int b" using b by simp
  have "x < 2 powi bitlen a / 2 powi (bitlen b - 1)"
    unfolding x using A B a b
    by (intro frac_less) (auto simp: less_imp_le)
  also have "\<dots> = 2 powi (bitlen a - (bitlen b - 1))"
    by (subst power_int_diff) simp_all
  also have "bitlen a - (bitlen b - 1) = e0 + 1"
    by (simp add: e0_def)
  finally have up: "x < 2 powi (e0 + 1)" .
  have "2 powi (bitlen a - 1) / 2 powi bitlen b \<le> x"
    unfolding x using A B a b
    by (intro frac_le) (auto simp: less_imp_le)
  moreover have "2 powi (bitlen a - 1) / 2 powi bitlen b = (2::rat) powi (bitlen a - 1 - bitlen b)"
    by (subst power_int_diff) simp_all
  moreover have "bitlen a - 1 - bitlen b = e0 - 1"
    by (simp add: e0_def)
  ultimately have low: "2 powi (e0 - 1) \<le> x"
    by simp
  have fl: "floor_log2 x = (if 2 powi e0 \<le> x then e0 else e0 - 1)"
    by (simp add: floor_log2_def q e0_def)
  show "2 powi floor_log2 x \<le> x"
    using low by (simp add: fl)
  show "x < 2 powi (floor_log2 x + 1)"
    using up by (simp add: fl not_le)
qed

lemma pow2_less_exp:
  assumes "(2::rat) powi m < 2 powi n"
  shows "m < n"
proof (rule ccontr)
  assume "\<not> m < n"
  then have "(2::rat) powi n \<le> 2 powi m"
    by (intro power_int_increasing) simp_all
  with assms show False by simp
qed

lemma floor_log2_unique:
  assumes "2 powi e \<le> x" and "x < 2 powi (e + 1)"
  shows "floor_log2 x = e"
proof -
  have pos: "0 < x"
    using assms(1) zero_less_power_int [of "2::rat" e] by linarith
  note B = floor_log2_bounds [OF pos]
  have "(2::rat) powi e < 2 powi (floor_log2 x + 1)"
    using assms(1) B(2) by linarith
  then have "e < floor_log2 x + 1"
    by (rule pow2_less_exp)
  moreover have "(2::rat) powi floor_log2 x < 2 powi (e + 1)"
    using assms(2) B(1) by linarith
  then have "floor_log2 x < e + 1"
    by (rule pow2_less_exp)
  ultimately show ?thesis by simp
qed


text \<open>When the exponent of \<open>x\<close> is known, \<open>round_double x\<close> is found by one rounding to an
  integer.\<close>

lemma round_half_even_of_int: "round_half_even (of_int k) = k"
  by (simp add: round_half_even_def)

lemma round_half_even_ge_floor: "\<lfloor>y\<rfloor> \<le> round_half_even y"
  by (simp add: round_half_even_def Let_def)

lemma round_double_pos:
  assumes "0 < x"
  shows "round_double x =
    (if double_overflow \<le> of_int (round_half_even (x / 2 powi max (floor_log2 x - 52) (- 1074)))
          * 2 powi max (floor_log2 x - 52) (- 1074)
     then PosInf
     else Fin (of_int (round_half_even (x / 2 powi max (floor_log2 x - 52) (- 1074)))
          * 2 powi max (floor_log2 x - 52) (- 1074)))"
  using assms by (simp add: round_double_def Let_def)

lemma round_double_eqI:
  assumes "2 powi e \<le> x" and "x < 2 powi (e + 1)"
    and "p = max (e - 52) (- 1074)"
    and "round_half_even (x / 2 powi p) = m"
    and "of_int m * 2 powi p < double_overflow"
  shows "round_double x = Fin (of_int m * 2 powi p)"
proof -
  have pos: "0 < x"
    using assms(1) zero_less_power_int [of "2::rat" e] by linarith
  have "floor_log2 x = e"
    using assms(1,2) by (rule floor_log2_unique)
  with assms(3-5) show ?thesis
    by (simp add: round_double_pos [OF pos] not_le [symmetric])
qed

lemma round_double_of_int:
  assumes "0 \<le> n" and "n \<le> 2 ^ 53"
  shows "round_double (of_int n) = Fin (of_int n)"
proof (cases "n = 0")
  case True
  then show ?thesis by (simp add: round_double_def)
next
  case False
  with assms have n1: "1 \<le> n" by simp
  define x :: rat where "x = of_int n"
  have pos: "0 < x" using n1 by (simp add: x_def)
  define e where "e = floor_log2 x"
  note B = floor_log2_bounds [OF pos, folded e_def]
  have "(2::rat) powi 0 \<le> x" using n1 by (simp add: x_def)
  with B(2) have "(2::rat) powi 0 < 2 powi (e + 1)" by linarith
  then have e0: "0 \<le> e" using pow2_less_exp by fastforce
  from assms(2) have "(of_int n :: rat) \<le> of_int (2 ^ 53)"
    by (simp only: of_int_le_iff)
  then have x53: "x \<le> 2 powi 53"
    by (simp add: x_def)
  moreover have "(2::rat) powi 53 < 2 powi 54"
    by (rule power_int_strict_increasing) simp_all
  ultimately have "(2::rat) powi e < 2 powi 54"
    using B(1) by linarith
  then have e53: "e \<le> 53" using pow2_less_exp by fastforce
  define p where "p = max (e - 52) (- 1074)"
  have p: "p = e - 52" using e0 by (simp add: p_def)
  have "\<exists>k. x / 2 powi p = of_int k"
  proof (cases "e \<le> 52")
    case True
    then have "x / 2 powi p = x * 2 powi (52 - e)"
      by (simp add: p power_int_diff field_simps)
    also have "\<dots> = of_int (n * 2 ^ nat (52 - e))"
      using True by (simp add: x_def power_int_nonneg_exp)
    finally show ?thesis by blast
  next
    case False
    with e53 have e: "e = 53" by simp
    with B(1) x53 have "x = 2 ^ 53" by simp
    then have "x / 2 powi p = of_int (2 ^ 52)"
      by (simp add: p e)
    then show ?thesis by blast
  qed
  then obtain k where k: "x / 2 powi p = of_int k" ..
  then have r: "of_int k * 2 powi p = x"
    by (simp add: field_simps)
  have "(2::rat) powi 53 < 2 powi 1024"
    by (rule power_int_strict_increasing) simp_all
  with x53 have "x < double_overflow"
    unfolding double_overflow_def by (rule le_less_trans)
  with r have lt: "of_int k * 2 powi p < double_overflow"
    by simp
  have rh: "round_half_even (x / 2 powi p) = k"
    by (simp add: k round_half_even_of_int)
  from round_double_eqI [OF B(1) B(2) p_def rh lt]
  have "round_double x = Fin (of_int k * 2 powi p)" .
  with r show ?thesis by (simp add: x_def)
qed


text \<open>Rounding does not take a value of at least 1 below 1.\<close>

lemma round_double_ge_one:
  assumes "1 \<le> x"
  shows "round_double x = PosInf \<or> (\<exists>r. 1 \<le> r \<and> round_double x = Fin r)"
proof -
  have pos: "0 < x" using assms by simp
  define e where "e = floor_log2 x"
  note B = floor_log2_bounds [OF pos, folded e_def]
  have "(2::rat) powi 0 < 2 powi (e + 1)" using assms B(2) by simp
  then have e0: "0 \<le> e" using pow2_less_exp by fastforce
  define p where "p = max (e - 52) (- 1074)"
  have p: "p = e - 52" using e0 by (simp add: p_def)
  define m where "m = round_half_even (x / 2 powi p)"
  have "(2::rat) powi 52 = 2 powi e / 2 powi p"
    by (simp add: p power_int_diff [symmetric])
  also have "\<dots> \<le> x / 2 powi p"
    using B(1) by (simp add: divide_right_mono)
  finally have "of_int (2 ^ 52) \<le> x / 2 powi p" by simp
  then have "2 ^ 52 \<le> \<lfloor>x / 2 powi p\<rfloor>"
    by (simp only: le_floor_iff)
  then have "2 ^ 52 \<le> m"
    unfolding m_def using round_half_even_ge_floor [of "x / 2 powi p"] by (rule order_trans)
  then have "(of_int (2 ^ 52) :: rat) \<le> of_int m"
    by (simp only: of_int_le_iff)
  then have "(2::rat) powi 52 \<le> of_int m"
    by simp
  then have f1: "(2::rat) powi 52 * 2 powi p \<le> of_int m * 2 powi p"
    by (rule mult_right_mono) simp
  have f2: "(2::rat) powi 52 * 2 powi p = 2 powi e"
    using power_int_add [of "2::rat" 52 "e - 52"] by (simp add: p)
  have f3: "(1::rat) \<le> 2 powi e"
    using e0 by simp
  have ge: "(1::rat) \<le> of_int m * 2 powi p"
    using f1 f2 f3 by linarith
  have "round_double x =
      (if double_overflow \<le> of_int m * 2 powi p then PosInf else Fin (of_int m * 2 powi p))"
    unfolding m_def p_def e_def by (rule round_double_pos [OF pos])
  with ge show ?thesis
    by (cases "double_overflow \<le> of_int m * 2 powi p") simp_all
qed

text \<open>A non-negative integer up to \<open>2^53\<close> is a double.\<close>

lemma round_double_exact:
  assumes "of_int \<lfloor>q\<rfloor> = q" and "0 \<le> q" and "q \<le> 2 ^ 53"
  shows "round_double q = Fin q"
proof -
  from assms(2) have "0 \<le> \<lfloor>q\<rfloor>" by simp
  moreover from assms(1,3) have "(of_int \<lfloor>q\<rfloor> :: rat) \<le> of_int (2 ^ 53)"
    by (simp del: of_int_floor_cancel)
  then have "\<lfloor>q\<rfloor> \<le> 2 ^ 53" by (simp only: of_int_le_iff)
  ultimately have "round_double (of_int \<lfloor>q\<rfloor>) = Fin (of_int \<lfloor>q\<rfloor>)"
    by (rule round_double_of_int)
  with assms(1) show ?thesis by (simp del: of_int_floor_cancel)
qed

text \<open>In the binade of \<open>2^53\<close> the doubles are the even integers.\<close>

lemma round_double_binade_53:
  assumes "2 ^ 53 \<le> x" and "x < 2 ^ 54" and "round_half_even (x / 2) = m"
  shows "round_double x = Fin (of_int m * 2)"
proof -
  have x2: "x / 2 < 2 ^ 53" using assms(2) by simp
  have "\<lfloor>x / 2\<rfloor> < 2 ^ 53"
    using x2 by (simp add: floor_less_iff)
  then have "round_half_even (x / 2) \<le> 2 ^ 53"
    by (simp add: round_half_even_def Let_def)
  then have "m \<le> 2 ^ 53" using assms(3) by simp
  then have "(of_int m :: rat) \<le> of_int (2 ^ 53)" by (simp only: of_int_le_iff)
  then have "(of_int m :: rat) * 2 \<le> 2 powi 54" by simp
  moreover have "(2::rat) powi 54 < 2 powi 1024"
    by (rule power_int_strict_increasing) simp_all
  ultimately have lt: "of_int m * 2 powi 1 < double_overflow"
    by (simp add: double_overflow_def)
  have rh: "round_half_even (x / 2 powi 1) = m" using assms(3) by simp
  have "round_double x = Fin (of_int m * 2 powi 1)"
    using assms(1,2) by (intro round_double_eqI [where e = 53, OF _ _ _ rh lt]) simp_all
  then show ?thesis by simp
qed

lemma round_double_2p53_plus_1: "round_double 9007199254740993 = Fin 9007199254740992"
proof -
  have "\<lfloor>(9007199254740993::rat) / 2\<rfloor> = 4503599627370496"
    by (simp add: floor_eq_iff)
  then have "round_half_even (9007199254740993 / 2) = 4503599627370496"
    by (simp add: round_half_even_def)
  from round_double_binade_53 [OF _ _ this] show ?thesis by simp
qed

lemma round_double_2p53_plus_2: "round_double 9007199254740994 = Fin 9007199254740994"
proof -
  have "round_half_even (9007199254740994 / 2) = 4503599627370497"
    using round_half_even_of_int [of 4503599627370497] by simp
  from round_double_binade_53 [OF _ _ this] show ?thesis by simp
qed

text \<open>One half is a double.\<close>

lemma round_double_half: "round_double (1 / 2) = Fin (1 / 2)"
proof -
  have p: "(2::rat) powi (- 53) = 1 / 9007199254740992"
    by (simp add: power_int_minus_divide)
  have "(1 / 2) / (2::rat) powi (- 53) = of_int 4503599627370496"
    by (simp add: p)
  then have rh: "round_half_even ((1 / 2) / 2 powi (- 53)) = 4503599627370496"
    by (simp only: round_half_even_of_int)
  have "(2::rat) powi (- 1) < 2 powi 1024"
    by (rule power_int_strict_increasing) simp_all
  then have lt: "rat_of_int 4503599627370496 * 2 powi (- 53) < double_overflow"
    by (simp add: p double_overflow_def)
  have "round_double (1 / 2) = Fin (rat_of_int 4503599627370496 * 2 powi (- 53))"
    by (rule round_double_eqI [where e = "- 1", OF _ _ _ rh lt]) simp_all
  then show ?thesis by (simp add: p)
qed

text \<open>
  The doubles nearest to 0.1 and 0.2 add up to \<open>5404319552844596 / 2^54\<close>, which prints as
  \<^verbatim>\<open>0.30000000000000004\<close>; the double nearest to 0.3 is \<open>5404319552844595 / 2^54\<close>.
\<close>

lemma js_add_tenth_fifth:
  "js_add (Fin (3602879701896397 / 2 ^ 55)) (Fin (3602879701896397 / 2 ^ 54))
     = Fin (5404319552844596 / 2 ^ 54)"
proof -
  have p: "(2::rat) powi (- 54) = 1 / 2 ^ 54"
    by (simp add: power_int_minus_divide)
  have y: "(10808639105689191 / 2 ^ 55) / (2::rat) powi (- 54) = 10808639105689191 / 2"
    by (simp add: p)
  have "\<lfloor>(10808639105689191::rat) / 2\<rfloor> = 5404319552844595"
    by (simp add: floor_eq_iff)
  then have "round_half_even (10808639105689191 / 2) = 5404319552844596"
    by (simp add: round_half_even_def)
  with y have rh: "round_half_even ((10808639105689191 / 2 ^ 55) / 2 powi (- 54)) = 5404319552844596"
    by simp
  have "(2::rat) powi (- 1) < 2 powi 1024"
    by (rule power_int_strict_increasing) simp_all
  then have lt: "rat_of_int 5404319552844596 * 2 powi (- 54) < double_overflow"
    by (simp add: p double_overflow_def)
  have "round_double (10808639105689191 / 2 ^ 55)
      = Fin (rat_of_int 5404319552844596 * 2 powi (- 54))"
    by (rule round_double_eqI [where e = "- 2", OF _ _ _ rh lt]) simp_all
  then show ?thesis by (simp add: p)
qed

section \<open>Sums that do not round\<close>

lemma safe_natural_iff:
  "safe_natural n \<longleftrightarrow> (\<exists>q. n = Fin q \<and> of_int \<lfloor>q\<rfloor> = q \<and> 0 \<le> q \<and> q < 2 ^ 53)"
  by (cases n) (simp_all add: safe_natural_def del: of_int_floor_cancel)

text \<open>Sums and products of non-negative integers are exact as long as the result is at
  most \<open>2^53\<close>.\<close>

lemma js_add_exact:
  assumes "of_int \<lfloor>a\<rfloor> = a" and "0 \<le> a" and "of_int \<lfloor>b\<rfloor> = b" and "0 \<le> b"
    and "a + b \<le> 2 ^ 53"
  shows "js_add (Fin a) (Fin b) = Fin (a + b)"
proof -
  have "of_int (\<lfloor>a\<rfloor> + \<lfloor>b\<rfloor>) = a + b"
    using assms(1,3) by (simp del: of_int_floor_cancel)
  then have "of_int \<lfloor>a + b\<rfloor> = a + b" by (metis floor_of_int)
  with assms(2,4,5) have "round_double (a + b) = Fin (a + b)"
    by (intro round_double_exact) simp_all
  then show ?thesis by simp
qed

lemma js_mul_exact:
  assumes "of_int \<lfloor>a\<rfloor> = a" and "0 \<le> a" and "of_int \<lfloor>b\<rfloor> = b" and "0 \<le> b"
    and "a * b \<le> 2 ^ 53"
  shows "js_mul (Fin a) (Fin b) = Fin (a * b)"
proof -
  have "of_int (\<lfloor>a\<rfloor> * \<lfloor>b\<rfloor>) = a * b"
    using assms(1,3) by (simp del: of_int_floor_cancel)
  then have "of_int \<lfloor>a * b\<rfloor> = a * b" by (metis floor_of_int)
  with assms(2,4,5) have "round_double (a * b) = Fin (a * b)"
    by (intro round_double_exact) simp_all
  then show ?thesis by simp
qed

lemma foldl_js_add_exact:
  assumes "\<forall>q \<in> set qs. of_int \<lfloor>q\<rfloor> = q \<and> 0 \<le> q"
    and "of_int \<lfloor>a\<rfloor> = a" and "0 \<le> a" and "a + sum_list qs \<le> 2 ^ 53"
  shows "foldl js_add (Fin a) (map Fin qs) = Fin (a + sum_list qs)"
  using assms
proof (induction qs arbitrary: a)
  case Nil
  then show ?case by simp
next
  case (Cons q qs)
  have rest: "0 \<le> sum_list qs"
    using Cons.prems(1) by (simp add: sum_list_nonneg)
  have q: "of_int \<lfloor>q\<rfloor> = q" "0 \<le> q"
    using Cons.prems(1) by (simp_all del: of_int_floor_cancel)
  have step: "js_add (Fin a) (Fin q) = Fin (a + q)"
    using Cons.prems(2,3,4) q rest by (intro js_add_exact) (simp_all del: of_int_floor_cancel)
  have "of_int (\<lfloor>a\<rfloor> + \<lfloor>q\<rfloor>) = a + q"
    using Cons.prems(2) q(1) by (simp del: of_int_floor_cancel)
  then have int: "of_int \<lfloor>a + q\<rfloor> = a + q" by (metis floor_of_int)
  have "foldl js_add (Fin (a + q)) (map Fin qs) = Fin (a + q + sum_list qs)"
  proof (rule Cons.IH)
    show "\<forall>q \<in> set qs. of_int \<lfloor>q\<rfloor> = q \<and> 0 \<le> q"
      using Cons.prems(1) by (simp del: of_int_floor_cancel)
    show "of_int \<lfloor>a + q\<rfloor> = a + q" by (rule int)
    show "0 \<le> a + q" using Cons.prems(3) q(2) by simp
    show "a + q + sum_list qs \<le> 2 ^ 53" using Cons.prems(4) by (simp add: add.assoc)
  qed
  with step show ?case by (simp add: add.assoc)
qed

lemma js_ge_add_one:
  assumes "js_ge q (Fin 1)"
  shows "js_ge (js_add q (Fin 1)) (Fin 1)"
proof (cases q)
  case (Fin a)
  with assms have "1 \<le> a + 1" by (simp add: js_ge_def)
  from round_double_ge_one [OF this] Fin show ?thesis
    by (auto simp: js_ge_def)
qed (use assms in \<open>simp_all add: js_ge_def\<close>)

lemma gt_zero_not_le: "gt_zero q \<Longrightarrow> \<not> js_le q (Fin 0)"
  by (cases q) simp_all

lemma is_double_mul_one: "is_double p \<Longrightarrow> js_mul p (Fin 1) = p"
  by (cases p) simp_all

section \<open>Properties of the transitions\<close>


lemma calculateTotalPrice_foldl:
  "calculateTotalPrice its =
     foldl js_add (Fin 0) (map (\<lambda>item. js_mul (item_price item) (item_quantity item)) its)"
  by (simp add: calculateTotalPrice_def foldl_map)

lemma findCartItemById_None:
  "findCartItemById its pid = None \<longleftrightarrow> (\<forall>it \<in> set its. item_id it \<noteq> pid)"
  by (auto simp: findCartItemById_def find_None_iff)

lemma findCartItemById_Some:
  "findCartItemById its pid = Some it \<Longrightarrow> it \<in> set its \<and> item_id it = pid"
  by (auto simp: findCartItemById_def find_Some_iff)

text \<open>
  Claim C1. When some line item of the state has the product's id, \<^verbatim>\<open>addItemToCart\<close>
  keeps the number and the order of the line items; every line item with that id has its
  quantity raised by one (the code's \<^verbatim>\<open>item.quantity + 1\<close>) and its id, name, price and
  image kept, and every other line item is unchanged. When no line item has the product's
  id, the result is the old list followed by one new line item of quantity 1 whose id,
  name, price and image are the product's.
\<close>

theorem addItemToCart_increments_or_appends:
  "((\<exists>it \<in> set (items s). item_id it = product_id p) \<longrightarrow>
      length (items (addItemToCart s p)) = length (items s) \<and>
      (\<forall>i < length (items s).
         (item_id (items s ! i) = product_id p \<longrightarrow>
            item_quantity (items (addItemToCart s p) ! i)
              = js_add (item_quantity (items s ! i)) (Fin 1) \<and>
            item_price (items (addItemToCart s p) ! i) = item_price (items s ! i) \<and>
            item_name (items (addItemToCart s p) ! i) = item_name (items s ! i) \<and>
            item_image (items (addItemToCart s p) ! i) = item_image (items s ! i) \<and>
            item_id (items (addItemToCart s p) ! i) = item_id (items s ! i)) \<and>
         (item_id (items s ! i) \<noteq> product_id p \<longrightarrow>
            items (addItemToCart s p) ! i = items s ! i))) \<and>
   ((\<forall>it \<in> set (items s). item_id it \<noteq> product_id p) \<longrightarrow>
      items (addItemToCart s p) =
        items s @ [\<lparr>item_id = product_id p, item_name = product_name p,
                     item_price = product_price p, item_image = product_image p,
                     item_quantity = Fin 1\<rparr>])"
proof (cases "findCartItemById (items s) (product_id p)")
  case None
  then have absent: "\<forall>it \<in> set (items s). item_id it \<noteq> product_id p"
    by (simp add: findCartItemById_None)
  from None have "items (addItemToCart s p) = items s @ [createCartItem p (Fin 1)]"
    by (simp add: addItemToCart_def)
  with absent show ?thesis
    by (auto simp: createCartItem_def)
next
  case (Some existing)
  then have present: "\<exists>it \<in> set (items s). item_id it = product_id p"
    using findCartItemById_Some by blast
  from Some have "items (addItemToCart s p) =
      map (\<lambda>item. if item_id item = product_id p
                   then item\<lparr>item_quantity := js_add (item_quantity item) (Fin 1)\<rparr> else item)
          (items s)"
    by (simp add: addItemToCart_def)
  with present show ?thesis
    by auto
qed

theorem addItemToCart_increments_or_appends_witness:
  "(\<exists>it \<in> set (items \<lparr>items = [phone_line 2]\<rparr>). item_id it = product_id phone_repriced) \<and>
   items (addItemToCart \<lparr>items = [phone_line 2]\<rparr> phone_repriced) ! 0 = phone_line 3 \<and>
   items (addItemToCart \<lparr>items = [phone_line 2]\<rparr> pad) = [phone_line 2, pad_line 1]"
proof -
  have inc: "round_double 3 = Fin 3"
    using round_double_exact [of 3] by simp
  show ?thesis
    using addItemToCart_increments_or_appends [of "\<lparr>items = [phone_line 2]\<rparr>" phone_repriced]
      addItemToCart_increments_or_appends [of "\<lparr>items = [phone_line 2]\<rparr>" pad] inc
    by (simp add: phone_line_def pad_line_def phone_repriced_def pad_def)
qed

section \<open>Aggregates\<close>

text \<open>
  Claim C2. For every cart state the shipping fee that \<^verbatim>\<open>calculateCartDerivedData\<close>
  reports is 0 when the subtotal it computes is at least the threshold 5000, and the fee
  100 otherwise. The comparison is inclusive: a subtotal of exactly 5000 gives 0, a
  subtotal of 4999 gives 100, as numbers and as the subtotals of two carts.
\<close>

theorem calculateShippingFee_threshold:
  "shippingFee (calculateCartDerivedData s) =
     (if js_ge (calculateTotalPrice (items s)) (Fin 5000) then Fin 0 else Fin 100) \<and>
   totalPrice (calculateCartDerivedData s) = calculateTotalPrice (items s) \<and>
   FREE_SHIPPING_THRESHOLD SHIPPING_CONFIG = Fin 5000 \<and>
   SHIPPING_FEE SHIPPING_CONFIG = Fin 100 \<and>
   calculateShippingFee (Fin 5000) = Fin 0 \<and>
   calculateShippingFee (Fin 4999) = Fin 100 \<and>
   calculateTotalPrice [plain_line ''1'' 2500 2] = Fin 5000 \<and>
   shippingFee (calculateCartDerivedData \<lparr>items = [plain_line ''1'' 2500 2]\<rparr>) = Fin 0 \<and>
   calculateTotalPrice [plain_line ''1'' 4999 1] = Fin 4999 \<and>
   shippingFee (calculateCartDerivedData \<lparr>items = [plain_line ''1'' 4999 1]\<rparr>) = Fin 100"
proof -
  have r1: "round_double 5000 = Fin 5000"
    using round_double_exact [of 5000] by simp
  have r2: "round_double 4999 = Fin 4999"
    using round_double_exact [of 4999] by simp
  have t1: "calculateTotalPrice [plain_line ''1'' 2500 2] = Fin 5000"
    by (simp add: calculateTotalPrice_def plain_line_def r1)
  have t2: "calculateTotalPrice [plain_line ''1'' 4999 1] = Fin 4999"
    by (simp add: calculateTotalPrice_def plain_line_def r2)
  show ?thesis
    by (simp add: calculateCartDerivedData_def calculateShippingFee_def SHIPPING_CONFIG_def
        Let_def js_ge_def t1 t2)
qed

section \<open>Setting a quantity\<close>

text \<open>
  Claim C3. For every cart state and every id: with a quantity of 0 or less,
  \<^verbatim>\<open>updateItemQuantity\<close> returns what \<^verbatim>\<open>removeItemFromCart\<close> returns, whether or not the
  id is in the cart. With a quantity above 0 (and with any quantity that is not 0 or less,
  which adds NaN) the list keeps its length and order, every line item with that id gets
  the new quantity and keeps its id, name, price and image, and every other line item is
  unchanged; when no line item has that id, the state returned is the state given.
\<close>

theorem updateItemQuantity_cases:
  "(js_le q (Fin 0) \<longrightarrow> updateItemQuantity s pid q = removeItemFromCart s pid) \<and>
   (gt_zero q \<longrightarrow> \<not> js_le q (Fin 0)) \<and>
   (\<not> js_le q (Fin 0) \<longrightarrow>
      length (items (updateItemQuantity s pid q)) = length (items s) \<and>
      (\<forall>i < length (items s).
         (item_id (items s ! i) = pid \<longrightarrow>
            item_quantity (items (updateItemQuantity s pid q) ! i) = q \<and>
            item_price (items (updateItemQuantity s pid q) ! i) = item_price (items s ! i) \<and>
            item_name (items (updateItemQuantity s pid q) ! i) = item_name (items s ! i) \<and>
            item_image (items (updateItemQuantity s pid q) ! i) = item_image (items s ! i) \<and>
            item_id (items (updateItemQuantity s pid q) ! i) = item_id (items s ! i)) \<and>
         (item_id (items s ! i) \<noteq> pid \<longrightarrow>
            items (updateItemQuantity s pid q) ! i = items s ! i))) \<and>
   (\<not> js_le q (Fin 0) \<and> (\<forall>it \<in> set (items s). item_id it \<noteq> pid) \<longrightarrow>
      updateItemQuantity s pid q = s)"
proof -
  have absent: "map (\<lambda>item. if item_id item = pid then item\<lparr>item_quantity := q\<rparr> else item) (items s)
      = items s" if "\<forall>it \<in> set (items s). item_id it \<noteq> pid"
    using that by (simp add: map_idI)
  show ?thesis
    by (auto simp: updateItemQuantity_def absent gt_zero_not_le)
qed

theorem updateItemQuantity_cases_witness:
  "updateItemQuantity \<lparr>items = [phone_line 2, pad_line 1]\<rparr> ''1'' (Fin 0)
     = removeItemFromCart \<lparr>items = [phone_line 2, pad_line 1]\<rparr> ''1'' \<and>
   updateItemQuantity \<lparr>items = [phone_line 2, pad_line 1]\<rparr> ''9'' (Fin (- 3))
     = removeItemFromCart \<lparr>items = [phone_line 2, pad_line 1]\<rparr> ''9'' \<and>
   gt_zero (Fin 5) \<and>
   items (updateItemQuantity \<lparr>items = [phone_line 2, pad_line 1]\<rparr> ''2'' (Fin 5)) ! 1 = pad_line 5 \<and>
   items (updateItemQuantity \<lparr>items = [phone_line 2, pad_line 1]\<rparr> ''2'' (Fin 5)) ! 0 = phone_line 2 \<and>
   updateItemQuantity \<lparr>items = [phone_line 2, pad_line 1]\<rparr> ''9'' (Fin 5)
     = \<lparr>items = [phone_line 2, pad_line 1]\<rparr>"
  using updateItemQuantity_cases [of "Fin 0" "\<lparr>items = [phone_line 2, pad_line 1]\<rparr>" "''1''"]
    updateItemQuantity_cases [of "Fin (- 3)" "\<lparr>items = [phone_line 2, pad_line 1]\<rparr>" "''9''"]
    updateItemQuantity_cases [of "Fin 5" "\<lparr>items = [phone_line 2, pad_line 1]\<rparr>" "''2''"]
    updateItemQuantity_cases [of "Fin 5" "\<lparr>items = [phone_line 2, pad_line 1]\<rparr>" "''9''"]
  by (simp add: phone_line_def pad_line_def updateItemQuantity_def removeItemFromCart_def)

section \<open>The invariant\<close>

lemma addItemToCart_items:
  "items (addItemToCart s p) =
     (if \<exists>it \<in> set (items s). item_id it = product_id p
      then map (\<lambda>item. if item_id item = product_id p
                        then item\<lparr>item_quantity := js_add (item_quantity item) (Fin 1)\<rparr>
                        else item) (items s)
      else items s @ [createCartItem p (Fin 1)])"
proof (cases "findCartItemById (items s) (product_id p)")
  case None
  then have "\<forall>it \<in> set (items s). item_id it \<noteq> product_id p"
    by (simp add: findCartItemById_None)
  with None show ?thesis
    by (simp add: addItemToCart_def)
next
  case (Some existing)
  then show ?thesis
    using findCartItemById_Some [OF Some] by (auto simp: addItemToCart_def)
qed

lemma map_item_id_update:
  "map item_id (map (\<lambda>item. if P item then item\<lparr>item_quantity := f item\<rparr> else item) xs)
     = map item_id xs"
  by (induction xs) simp_all

lemma addItemToCart_ids:
  "map item_id (items (addItemToCart s p)) =
     (if product_id p \<in> set (map item_id (items s)) then map item_id (items s)
      else map item_id (items s) @ [product_id p])"
proof -
  have "(\<exists>it \<in> set (items s). item_id it = product_id p)
      \<longleftrightarrow> product_id p \<in> set (map item_id (items s))"
    by force
  then show ?thesis
    by (simp add: addItemToCart_items map_item_id_update createCartItem_def del: set_map)
qed

lemma removeItemFromCart_ids:
  "map item_id (items (removeItemFromCart s pid)) = removeAll pid (map item_id (items s))"
proof -
  have "map item_id (filter (\<lambda>item. item_id item \<noteq> pid) xs) = removeAll pid (map item_id xs)"
    for xs :: "CartItem list"
    by (induction xs) auto
  then show ?thesis
    by (simp add: removeItemFromCart_def)
qed

lemma updateItemQuantity_ids:
  "map item_id (items (updateItemQuantity s pid q)) =
     (if js_le q (Fin 0) then removeAll pid (map item_id (items s)) else map item_id (items s))"
  by (simp add: updateItemQuantity_def removeItemFromCart_ids map_item_id_update)

lemma cart_inv_addItemToCart: "cart_inv s \<Longrightarrow> cart_inv (addItemToCart s p)"
  unfolding cart_inv_def
proof (intro conjI)
  assume inv: "list_all (\<lambda>item. js_ge (item_quantity item) (Fin 1)) (items s) \<and>
    distinct (map item_id (items s))"
  then show "distinct (map item_id (items (addItemToCart s p)))"
    by (simp add: addItemToCart_ids del: set_map)
  have "js_ge (Fin 1) (Fin 1)" by (simp add: js_ge_def)
  with inv show "list_all (\<lambda>item. js_ge (item_quantity item) (Fin 1)) (items (addItemToCart s p))"
    by (auto simp: addItemToCart_items list_all_iff createCartItem_def js_ge_add_one)
qed

lemma cart_inv_removeItemFromCart: "cart_inv s \<Longrightarrow> cart_inv (removeItemFromCart s pid)"
  unfolding cart_inv_def
proof (intro conjI)
  assume inv: "list_all (\<lambda>item. js_ge (item_quantity item) (Fin 1)) (items s) \<and>
    distinct (map item_id (items s))"
  then show "distinct (map item_id (items (removeItemFromCart s pid)))"
    by (simp add: removeItemFromCart_ids distinct_removeAll)
  from inv show "list_all (\<lambda>item. js_ge (item_quantity item) (Fin 1))
      (items (removeItemFromCart s pid))"
    by (auto simp: removeItemFromCart_def list_all_iff)
qed

lemma cart_inv_updateItemQuantity:
  assumes "cart_inv s" and "js_le q (Fin 0) \<or> js_ge q (Fin 1)"
  shows "cart_inv (updateItemQuantity s pid q)"
proof (cases "js_le q (Fin 0)")
  case True
  with assms(1) show ?thesis
    by (simp add: updateItemQuantity_def cart_inv_removeItemFromCart)
next
  case False
  with assms(2) have q: "js_ge q (Fin 1)" by simp
  from assms(1) have "distinct (map item_id (items (updateItemQuantity s pid q)))"
    using False by (simp add: updateItemQuantity_ids cart_inv_def)
  moreover from assms(1) False q
  have "list_all (\<lambda>item. js_ge (item_quantity item) (Fin 1)) (items (updateItemQuantity s pid q))"
    by (auto simp: updateItemQuantity_def cart_inv_def list_all_iff)
  ultimately show ?thesis
    by (simp add: cart_inv_def)
qed

lemma cart_inv_createEmptyCart: "cart_inv createEmptyCart"
  by (simp add: cart_inv_def createEmptyCart_def)

text \<open>
  Claim C4 (as amended). The empty cart satisfies the invariant (every quantity at least
  1, no id twice). From a state that satisfies it, \<^verbatim>\<open>addItemToCart\<close>,
  \<^verbatim>\<open>removeItemFromCart\<close> and \<^verbatim>\<open>clearCart\<close> each return a state that satisfies it, and so
  does \<^verbatim>\<open>updateItemQuantity\<close> for every quantity that is 0 or less or at least 1. The order
  of insertion is kept: adding leaves the sequence of ids as it was, or puts the new id
  at its end; removing and setting a quantity of 0 or less delete one id from the sequence
  and move nothing else; setting any other quantity leaves the sequence as it was.
\<close>

theorem cart_inv_preserved:
  "cart_inv createEmptyCart \<and>
   (cart_inv s \<longrightarrow>
      cart_inv (addItemToCart s p) \<and>
      map item_id (items (addItemToCart s p)) =
        (if product_id p \<in> set (map item_id (items s)) then map item_id (items s)
         else map item_id (items s) @ [product_id p]) \<and>
      cart_inv (removeItemFromCart s pid) \<and>
      map item_id (items (removeItemFromCart s pid)) = removeAll pid (map item_id (items s)) \<and>
      (js_le q (Fin 0) \<or> js_ge q (Fin 1) \<longrightarrow> cart_inv (updateItemQuantity s pid q)) \<and>
      map item_id (items (updateItemQuantity s pid q)) =
        (if js_le q (Fin 0) then removeAll pid (map item_id (items s))
         else map item_id (items s)) \<and>
      cart_inv (clearCart s) \<and>
      items (clearCart s) = [])"
proof (intro conjI impI)
  show "cart_inv createEmptyCart" by (rule cart_inv_createEmptyCart)
next
  assume "cart_inv s"
  then show "cart_inv (addItemToCart s p)" by (rule cart_inv_addItemToCart)
next
  show "map item_id (items (addItemToCart s p)) =
        (if product_id p \<in> set (map item_id (items s)) then map item_id (items s)
         else map item_id (items s) @ [product_id p])"
    by (rule addItemToCart_ids)
next
  assume "cart_inv s"
  then show "cart_inv (removeItemFromCart s pid)" by (rule cart_inv_removeItemFromCart)
next
  show "map item_id (items (removeItemFromCart s pid)) = removeAll pid (map item_id (items s))"
    by (rule removeItemFromCart_ids)
next
  assume "cart_inv s" and "js_le q (Fin 0) \<or> js_ge q (Fin 1)"
  then show "cart_inv (updateItemQuantity s pid q)" by (rule cart_inv_updateItemQuantity)
next
  show "map item_id (items (updateItemQuantity s pid q)) =
        (if js_le q (Fin 0) then removeAll pid (map item_id (items s))
         else map item_id (items s))"
    by (rule updateItemQuantity_ids)
next
  show "cart_inv (clearCart s)" by (simp add: clearCart_def cart_inv_createEmptyCart)
next
  show "items (clearCart s) = []" by (simp add: clearCart_def createEmptyCart_def)
qed

theorem cart_inv_preserved_witness:
  "cart_inv \<lparr>items = [phone_line 2, pad_line 1]\<rparr> \<and>
   cart_inv (addItemToCart \<lparr>items = [phone_line 2, pad_line 1]\<rparr> phone) \<and>
   map item_id (items (addItemToCart \<lparr>items = [phone_line 2, pad_line 1]\<rparr> phone)) = [''1'', ''2''] \<and>
   cart_inv (removeItemFromCart \<lparr>items = [phone_line 2, pad_line 1]\<rparr> ''1'') \<and>
   map item_id (items (removeItemFromCart \<lparr>items = [phone_line 2, pad_line 1]\<rparr> ''1'')) = [''2''] \<and>
   js_ge (Fin 7) (Fin 1) \<and>
   cart_inv (updateItemQuantity \<lparr>items = [phone_line 2, pad_line 1]\<rparr> ''1'' (Fin 7)) \<and>
   map item_id (items (updateItemQuantity \<lparr>items = [phone_line 2, pad_line 1]\<rparr> ''1'' (Fin 7)))
     = [''1'', ''2''] \<and>
   cart_inv (clearCart \<lparr>items = [phone_line 2, pad_line 1]\<rparr>)"
proof -
  have inv: "cart_inv \<lparr>items = [phone_line 2, pad_line 1]\<rparr>"
    by (simp add: cart_inv_def phone_line_def pad_line_def js_ge_def)
  have q: "js_ge (Fin 7) (Fin 1)"
    by (simp add: js_ge_def)
  show ?thesis
    using inv q
      cart_inv_preserved [of "\<lparr>items = [phone_line 2, pad_line 1]\<rparr>" phone "''1''" "Fin 7"]
    by (simp add: phone_line_def pad_line_def phone_def)
qed

text \<open>
  Claim C4 as stated fails: from the cart holding two phones, which satisfies the
  invariant, \<^verbatim>\<open>updateItemQuantity\<close> with the quantity 1/2 returns a cart whose line item has
  the quantity 1/2, below 1.
\<close>

theorem cart_inv_updateItemQuantity_counterexample:
  "cart_inv \<lparr>items = [phone_line 2]\<rparr> \<and>
   is_double (Fin (1 / 2)) \<and>
   updateItemQuantity \<lparr>items = [phone_line 2]\<rparr> ''1'' (Fin (1 / 2))
     = \<lparr>items = [phone_line (1 / 2)]\<rparr> \<and>
   \<not> cart_inv (updateItemQuantity \<lparr>items = [phone_line 2]\<rparr> ''1'' (Fin (1 / 2)))"
  by (simp add: cart_inv_def updateItemQuantity_def phone_line_def js_ge_def round_double_half)

section \<open>Adding a product and the aggregates\<close>

lemma natural_valued_iff:
  "natural_valued n \<longleftrightarrow> (\<exists>q. n = Fin q \<and> of_int \<lfloor>q\<rfloor> = q \<and> 0 \<le> q)"
  by (cases n) (simp_all add: natural_valued_def del: of_int_floor_cancel)

lemma safe_natural_natural_valued: "safe_natural n \<Longrightarrow> natural_valued n"
  by (auto simp: safe_natural_iff natural_valued_iff simp del: of_int_floor_cancel)

lemma natural_valued_num_value:
  assumes "natural_valued n"
  shows "n = Fin (num_value n)" and "of_int \<lfloor>num_value n\<rfloor> = num_value n"
    and "0 \<le> num_value n"
  using assms by (auto simp: natural_valued_iff simp del: of_int_floor_cancel)

lemma integral_add:
  fixes a b :: rat
  assumes "of_int \<lfloor>a\<rfloor> = a" and "of_int \<lfloor>b\<rfloor> = b"
  shows "of_int \<lfloor>a + b\<rfloor> = a + b"
proof -
  have "of_int (\<lfloor>a\<rfloor> + \<lfloor>b\<rfloor>) = a + b"
    using assms by (simp del: of_int_floor_cancel)
  then show ?thesis by (metis floor_of_int)
qed

lemma integral_mult:
  fixes a b :: rat
  assumes "of_int \<lfloor>a\<rfloor> = a" and "of_int \<lfloor>b\<rfloor> = b"
  shows "of_int \<lfloor>a * b\<rfloor> = a * b"
proof -
  have "of_int (\<lfloor>a\<rfloor> * \<lfloor>b\<rfloor>) = a * b"
    using assms by (simp del: of_int_floor_cancel)
  then show ?thesis by (metis floor_of_int)
qed

lemma integral_sum_list:
  fixes qs :: "rat list"
  assumes "\<forall>q \<in> set qs. of_int \<lfloor>q\<rfloor> = q"
  shows "of_int \<lfloor>sum_list qs\<rfloor> = sum_list qs"
  using assms
proof (induction qs)
  case Nil
  then show ?case by simp
next
  case (Cons q qs)
  then have "of_int \<lfloor>q\<rfloor> = q" and "of_int \<lfloor>sum_list qs\<rfloor> = sum_list qs"
    by (simp_all del: of_int_floor_cancel)
  then have "of_int \<lfloor>q + sum_list qs\<rfloor> = q + sum_list qs"
    by (rule integral_add)
  then show ?case by (simp del: of_int_floor_cancel)
qed

lemma member_le_sum_list_rat:
  fixes qs :: "rat list"
  assumes "\<forall>q \<in> set qs. 0 \<le> q" and "x \<in> set qs"
  shows "x \<le> sum_list qs"
  using assms
proof (induction qs)
  case Nil
  then show ?case by simp
next
  case (Cons q qs)
  have rest: "0 \<le> sum_list qs"
    using Cons.prems(1) by (simp add: sum_list_nonneg)
  show ?case
  proof (cases "x = q")
    case True
    with rest show ?thesis by simp
  next
    case False
    with Cons have "x \<le> sum_list qs" by simp
    moreover have "0 \<le> q" using Cons.prems(1) by simp
    ultimately show ?thesis by simp
  qed
qed


lemma calculateTotalPrice_exact:
  assumes "\<forall>it \<in> set xs. natural_valued (item_price it) \<and> natural_valued (item_quantity it)"
    and "exact_subtotal xs \<le> 2 ^ 53"
  shows "calculateTotalPrice xs = Fin (exact_subtotal xs)"
proof -
  let ?t = "\<lambda>it. num_value (item_price it) * num_value (item_quantity it)"
  let ?qs = "map ?t xs"
  have nonneg: "\<forall>q \<in> set ?qs. 0 \<le> q"
    using assms(1) natural_valued_num_value by auto
  have ints: "\<forall>q \<in> set ?qs. of_int \<lfloor>q\<rfloor> = q"
    using assms(1) natural_valued_num_value integral_mult by (auto simp del: of_int_floor_cancel)
  have mul_exact: "js_mul (item_price it) (item_quantity it) = Fin (?t it)" if "it \<in> set xs" for it
  proof -
    from that assms(1) have p: "natural_valued (item_price it)"
      and q: "natural_valued (item_quantity it)" by simp_all
    from that have "?t it \<in> set ?qs" by simp
    with nonneg have "?t it \<le> sum_list ?qs" by (rule member_le_sum_list_rat)
    with assms(2) have le: "?t it \<le> 2 ^ 53" by (simp add: exact_subtotal_def)
    have "js_mul (Fin (num_value (item_price it))) (Fin (num_value (item_quantity it))) = Fin (?t it)"
      using natural_valued_num_value [OF p] natural_valued_num_value [OF q] le
      by (intro js_mul_exact) simp_all
    with natural_valued_num_value [OF p] natural_valued_num_value [OF q] show ?thesis
      by simp
  qed
  then have m: "map (\<lambda>it. js_mul (item_price it) (item_quantity it)) xs = map Fin ?qs"
    by (simp add: comp_def)
  have "0 + sum_list ?qs \<le> 2 ^ 53"
    using assms(2) by (simp add: exact_subtotal_def)
  with nonneg ints have "foldl js_add (Fin 0) (map Fin ?qs) = Fin (0 + sum_list ?qs)"
    by (intro foldl_js_add_exact) (simp_all del: of_int_floor_cancel)
  then show ?thesis
    by (simp add: calculateTotalPrice_foldl m exact_subtotal_def)
qed

text \<open>With distinct ids, the line item of a given id splits the list, and the map of
  \<^verbatim>\<open>addItemToCart\<close> changes that line item alone.\<close>

lemma split_at_id:
  fixes xs :: "CartItem list"
  assumes "distinct (map item_id xs)" and "x \<in> set xs"
  shows "\<exists>ys zs. xs = ys @ x # zs \<and> (\<forall>y \<in> set ys \<union> set zs. item_id y \<noteq> item_id x)"
proof -
  from assms(2) obtain ys zs where xs: "xs = ys @ x # zs"
    by (auto simp: in_set_conv_decomp)
  with assms(1) have "\<forall>y \<in> set ys \<union> set zs. item_id y \<noteq> item_id x"
    by (auto simp: image_iff)
  with xs show ?thesis by blast
qed

lemma map_increment_split:
  assumes "\<forall>y \<in> set ys \<union> set zs. item_id y \<noteq> item_id x"
  shows "map (\<lambda>item. if item_id item = item_id x then h item else item) (ys @ x # zs)
     = ys @ h x # zs"
  using assms by (simp add: map_idI)


lemma exact_subtotal_append:
  "exact_subtotal (ys @ x # zs) =
     exact_subtotal ys + num_value (item_price x) * num_value (item_quantity x) + exact_subtotal zs"
  by (simp add: exact_subtotal_def)


lemma exact_subtotal_integral:
  assumes "\<forall>it \<in> set xs. natural_valued (item_price it) \<and> natural_valued (item_quantity it)"
  shows "of_int \<lfloor>exact_subtotal xs\<rfloor> = exact_subtotal xs" and "0 \<le> exact_subtotal xs"
proof -
  let ?qs = "map (\<lambda>it. num_value (item_price it) * num_value (item_quantity it)) xs"
  have "\<forall>q \<in> set ?qs. of_int \<lfloor>q\<rfloor> = q"
    using assms natural_valued_num_value integral_mult by (auto simp del: of_int_floor_cancel)
  then show "of_int \<lfloor>exact_subtotal xs\<rfloor> = exact_subtotal xs"
    unfolding exact_subtotal_def by (rule integral_sum_list)
  have nonneg: "\<forall>q \<in> set ?qs. 0 \<le> q"
    using assms natural_valued_num_value by auto
  show "0 \<le> exact_subtotal xs"
    unfolding exact_subtotal_def
  proof (rule sum_list_nonneg)
    fix q
    assume "q \<in> set ?qs"
    with nonneg show "0 \<le> q" by blast
  qed
qed


lemma calculateTotalPrice_snoc:
  "calculateTotalPrice (xs @ [x]) =
     js_add (calculateTotalPrice xs) (js_mul (item_price x) (item_quantity x))"
  by (simp add: calculateTotalPrice_def)




text \<open>
  Claim C9 (as amended). For every cart state whose line items have pairwise distinct ids
  and every product: when no line item has the product's id, the subtotal after
  \<^verbatim>\<open>addItemToCart\<close> is the subtotal before plus the product's price (the price being a
  double, as every JavaScript number is). When a line item has the product's id, and the
  prices and quantities of the cart are non-negative integers below \<open>2^53\<close>, and the exact
  subtotal plus the price stored in that line item is at most \<open>2^53\<close>, the subtotal after
  is the subtotal before plus that stored price, whatever price the product carries.
\<close>

theorem calculateTotalPrice_addItemToCart:
  assumes "distinct (map item_id (items s))"
  shows "((\<forall>it \<in> set (items s). item_id it \<noteq> product_id p) \<and> is_double (product_price p) \<longrightarrow>
            calculateTotalPrice (items (addItemToCart s p))
              = js_add (calculateTotalPrice (items s)) (product_price p)) \<and>
         (\<forall>stored \<in> set (items s).
            item_id stored = product_id p \<and>
            list_all (\<lambda>it. safe_natural (item_price it) \<and> safe_natural (item_quantity it))
              (items s) \<and>
            exact_subtotal (items s) + num_value (item_price stored) \<le> 2 ^ 53 \<longrightarrow>
            calculateTotalPrice (items (addItemToCart s p))
              = js_add (calculateTotalPrice (items s)) (item_price stored))"
proof (intro conjI ballI impI)
  assume "(\<forall>it \<in> set (items s). item_id it \<noteq> product_id p) \<and> is_double (product_price p)"
  then show "calculateTotalPrice (items (addItemToCart s p))
      = js_add (calculateTotalPrice (items s)) (product_price p)"
    by (simp add: addItemToCart_items calculateTotalPrice_snoc createCartItem_def
        is_double_mul_one)
next
  fix x
  assume x: "x \<in> set (items s)"
    and h: "item_id x = product_id p \<and>
      list_all (\<lambda>it. safe_natural (item_price it) \<and> safe_natural (item_quantity it)) (items s) \<and>
      exact_subtotal (items s) + num_value (item_price x) \<le> 2 ^ 53"
  let ?S = "exact_subtotal (items s)"
  let ?c = "num_value (item_price x)"
  let ?d = "num_value (item_quantity x)"
  from h have safe: "\<forall>it \<in> set (items s). safe_natural (item_price it) \<and> safe_natural (item_quantity it)"
    by (simp add: list_all_iff)
  then have nat: "\<forall>it \<in> set (items s).
      natural_valued (item_price it) \<and> natural_valued (item_quantity it)"
    by (simp add: safe_natural_natural_valued)
  note S = exact_subtotal_integral [OF nat]
  from nat x have px: "natural_valued (item_price x)" and qx: "natural_valued (item_quantity x)"
    by simp_all
  note c = natural_valued_num_value [OF px] and d = natural_valued_num_value [OF qx]
  from h c(1) have bound: "?S + ?c \<le> 2 ^ 53" by simp
  with c have S53: "?S \<le> 2 ^ 53" by simp
  have before: "calculateTotalPrice (items s) = Fin ?S"
    using nat S53 by (rule calculateTotalPrice_exact)
  have "js_add (Fin ?S) (Fin ?c) = Fin (?S + ?c)"
    using S c bound by (intro js_add_exact) simp_all
  with c have plus: "js_add (Fin ?S) (item_price x) = Fin (?S + ?c)"
    by simp
  from split_at_id [OF assms x] obtain ys zs
    where xs: "items s = ys @ x # zs"
      and other: "\<forall>y \<in> set ys \<union> set zs. item_id y \<noteq> item_id x"
    by blast
  let ?x' = "x\<lparr>item_quantity := js_add (item_quantity x) (Fin 1)\<rparr>"
  have present: "\<exists>it \<in> set (items s). item_id it = product_id p"
    using x h by blast
  have new: "items (addItemToCart s p) = ys @ ?x' # zs"
    using present h map_increment_split [OF other, of "\<lambda>item. item\<lparr>item_quantity :=
      js_add (item_quantity item) (Fin 1)\<rparr>"]
    by (simp add: addItemToCart_items xs)
  from safe x have "safe_natural (item_quantity x)" by simp
  then have "?d < 2 ^ 53"
    by (auto simp: safe_natural_iff simp del: of_int_floor_cancel)
  then have "\<lfloor>?d\<rfloor> < 2 ^ 53"
    by (simp add: floor_less_iff)
  then have "\<lfloor>?d\<rfloor> + 1 \<le> 2 ^ 53" by simp
  then have "(of_int (\<lfloor>?d\<rfloor> + 1) :: rat) \<le> of_int (2 ^ 53)"
    by (simp only: of_int_le_iff)
  with d(2) have d53: "?d + 1 \<le> 2 ^ 53"
    by (simp del: of_int_floor_cancel)
  with d have "js_add (Fin ?d) (Fin 1) = Fin (?d + 1)"
    by (intro js_add_exact) simp_all
  with d have inc: "js_add (item_quantity x) (Fin 1) = Fin (?d + 1)"
    by simp
  have d1: "of_int \<lfloor>?d + 1\<rfloor> = ?d + 1"
    using d by (intro integral_add) simp_all
  with d have qx': "natural_valued (item_quantity ?x')"
    by (simp add: inc natural_valued_iff del: of_int_floor_cancel)
  have nat': "\<forall>it \<in> set (ys @ ?x' # zs).
      natural_valued (item_price it) \<and> natural_valued (item_quantity it)"
    using nat px qx' by (auto simp: xs)
  have sum': "exact_subtotal (ys @ ?x' # zs) = ?S + ?c"
    by (simp add: xs exact_subtotal_append inc algebra_simps)
  with bound have "exact_subtotal (ys @ ?x' # zs) \<le> 2 ^ 53" by simp
  with nat' have "calculateTotalPrice (ys @ ?x' # zs) = Fin (exact_subtotal (ys @ ?x' # zs))"
    by (rule calculateTotalPrice_exact)
  with new sum' before plus show "calculateTotalPrice (items (addItemToCart s p))
      = js_add (calculateTotalPrice (items s)) (item_price x)"
    by simp
qed

theorem calculateTotalPrice_addItemToCart_witness:
  "distinct (map item_id (items \<lparr>items = [phone_line 2]\<rparr>)) \<and>
   is_double (product_price pad) \<and>
   calculateTotalPrice (items \<lparr>items = [phone_line 2]\<rparr>) = Fin 73800 \<and>
   calculateTotalPrice (items (addItemToCart \<lparr>items = [phone_line 2]\<rparr> pad)) = Fin 81290 \<and>
   phone_line 2 \<in> set (items \<lparr>items = [phone_line 2]\<rparr>) \<and>
   item_id (phone_line 2) = product_id phone_repriced \<and>
   product_price phone_repriced = Fin 30000 \<and>
   exact_subtotal (items \<lparr>items = [phone_line 2]\<rparr>) = 73800 \<and>
   calculateTotalPrice (items (addItemToCart \<lparr>items = [phone_line 2]\<rparr> phone_repriced))
     = Fin 110700"
proof -
  have d: "distinct (map item_id (items \<lparr>items = [phone_line 2]\<rparr>))"
    by simp
  have r: "round_double 7490 = Fin 7490" "round_double 73800 = Fin 73800"
    "round_double 81290 = Fin 81290" "round_double 110700 = Fin 110700"
    using round_double_exact [of 7490] round_double_exact [of 73800]
      round_double_exact [of 81290] round_double_exact [of 110700] by simp_all
  have t: "calculateTotalPrice (items \<lparr>items = [phone_line 2]\<rparr>) = Fin 73800"
    by (simp add: calculateTotalPrice_def phone_line_def r)
  have e: "exact_subtotal (items \<lparr>items = [phone_line 2]\<rparr>) = 73800"
    by (simp add: exact_subtotal_def phone_line_def)
  have s: "list_all (\<lambda>it. safe_natural (item_price it) \<and> safe_natural (item_quantity it))
      (items \<lparr>items = [phone_line 2]\<rparr>)"
    by (simp add: phone_line_def safe_natural_def)
  from calculateTotalPrice_addItemToCart [OF d, of pad]
    calculateTotalPrice_addItemToCart [OF d, of phone_repriced] d t e s r
  show ?thesis
    by (simp add: pad_def phone_repriced_def phone_line_def)
qed

text \<open>
  Claim C9 as stated fails on a state with distinct ids: with the prices \<open>2^53\<close> and 1, one
  of each, adding the product of the second line item gives the subtotal \<open>2^53 + 2\<close>, while
  the subtotal before, plus the stored price 1, is \<open>2^53\<close>.
\<close>

theorem calculateTotalPrice_addItemToCart_counterexample:
  "distinct (map item_id
     (items \<lparr>items = [plain_line ''1'' 9007199254740992 1, plain_line ''2'' 1 1]\<rparr>)) \<and>
   plain_line ''2'' 1 1
     \<in> set (items \<lparr>items = [plain_line ''1'' 9007199254740992 1, plain_line ''2'' 1 1]\<rparr>) \<and>
   item_id (plain_line ''2'' 1 1) = product_id pad \<and>
   is_double (Fin 9007199254740992) \<and> is_double (Fin 1) \<and>
   calculateTotalPrice (items (addItemToCart
       \<lparr>items = [plain_line ''1'' 9007199254740992 1, plain_line ''2'' 1 1]\<rparr> pad))
     = Fin 9007199254740994 \<and>
   js_add (calculateTotalPrice
       (items \<lparr>items = [plain_line ''1'' 9007199254740992 1, plain_line ''2'' 1 1]\<rparr>))
     (item_price (plain_line ''2'' 1 1))
     = Fin 9007199254740992"
proof -
  have r0: "round_double 9007199254740992 = Fin 9007199254740992"
    using round_double_exact [of 9007199254740992] by simp
  have r1: "round_double 1 = Fin 1"
    using round_double_exact [of 1] by simp
  have r2: "round_double 2 = Fin 2"
    using round_double_exact [of 2] by simp
  show ?thesis
    by (simp add: plain_line_def pad_def addItemToCart_def findCartItemById_def
        calculateTotalPrice_def r0 r1 r2 round_double_2p53_plus_1 round_double_2p53_plus_2)
qed

section \<open>Validation\<close>

lemma typeof_TString: "typeof v = TString \<longleftrightarrow> (\<exists>s. v = JStr s)"
  by (cases v) simp_all

lemma typeof_TNumber: "typeof v = TNumber \<longleftrightarrow> (\<exists>n. v = JNum n)"
  by (cases v) simp_all

lemma getProp_JStr: "getProp x key = JStr s \<longleftrightarrow> (\<exists>fs. x = JObj fs \<and> map_of fs key = Some (JStr s))"
  by (cases x) (auto split: option.splits)

lemma getProp_JNum: "getProp x key = JNum n \<longleftrightarrow> (\<exists>fs. x = JObj fs \<and> map_of fs key = Some (JNum n))"
  by (cases x) (auto split: option.splits)

lemma isValidCartItem_iff:
  "isValidCartItem x \<longleftrightarrow>
     (\<exists>fs i n p q. x = JObj fs \<and>
        map_of fs ''id'' = Some (JStr i) \<and>
        map_of fs ''name'' = Some (JStr n) \<and>
        map_of fs ''price'' = Some (JNum p) \<and>
        map_of fs ''quantity'' = Some (JNum q) \<and>
        gt_zero q)"
proof (cases x)
  case (JObj fs)
  then show ?thesis
    by (auto simp: isValidCartItem_def typeof_TString typeof_TNumber split: option.splits)
qed (simp_all add: isValidCartItem_def)

text \<open>
  Claim C6 (as amended). \<^verbatim>\<open>isValidCartState\<close> returns true exactly when the items are an
  array and every element is an object whose \<^verbatim>\<open>id\<close> is a string, whose \<^verbatim>\<open>name\<close> is a string,
  whose \<^verbatim>\<open>price\<close> is a number and whose \<^verbatim>\<open>quantity\<close> is a number above 0. The strings may
  be empty and the quantity need not be an integer.
\<close>

theorem isValidCartState_iff:
  "isValidCartState st \<longleftrightarrow>
     (\<exists>xs. items st = JArr xs \<and>
        (\<forall>x \<in> set xs. \<exists>fs i n p q. x = JObj fs \<and>
           map_of fs ''id'' = Some (JStr i) \<and>
           map_of fs ''name'' = Some (JStr n) \<and>
           map_of fs ''price'' = Some (JNum p) \<and>
           map_of fs ''quantity'' = Some (JNum q) \<and>
           gt_zero q))"
proof (cases "items st")
  case (JArr xs)
  then show ?thesis
    by (simp add: isValidCartState_def list_all_iff isValidCartItem_iff)
qed (simp_all add: isValidCartState_def)

lemma claimed_valid_item_imp: "claimed_valid_item x \<Longrightarrow> isValidCartItem x"
proof (cases x)
  case (JObj fs)
  assume "claimed_valid_item x"
  with JObj show ?thesis
    by (auto simp: claimed_valid_item_def isValidCartItem_def split: jsval.splits option.splits)
qed (simp_all add: claimed_valid_item_def)

lemma claimed_valid_state_imp: "claimed_valid_state st \<Longrightarrow> isValidCartState st"
  by (auto simp: claimed_valid_state_def isValidCartState_def list_all_iff
      claimed_valid_item_imp split: jsval.splits)

text \<open>
  Claim C6 as stated fails: a line item with empty id and name, and a line item with
  quantity 3/2, are each accepted by \<^verbatim>\<open>isValidCartState\<close> and rejected by the condition
  of the claim.
\<close>

theorem isValidCartState_counterexample:
  "isValidCartState \<lparr>items = JArr [raw_line [] [] 0 1]\<rparr> \<and>
   \<not> claimed_valid_state \<lparr>items = JArr [raw_line [] [] 0 1]\<rparr> \<and>
   isValidCartState \<lparr>items = JArr [raw_line ''1'' ''Phone'' 36900 (3 / 2)]\<rparr> \<and>
   \<not> claimed_valid_state \<lparr>items = JArr [raw_line ''1'' ''Phone'' 36900 (3 / 2)]\<rparr>"
proof -
  have "\<lfloor>3 / 2 :: rat\<rfloor> = 1"
    by (simp add: floor_eq_iff)
  then have "\<not> is_integer (Fin (3 / 2))"
    by (simp add: is_integer_def)
  then show ?thesis
    by (simp add: isValidCartState_def isValidCartItem_def claimed_valid_state_def
        claimed_valid_item_def raw_line_def)
qed

theorem isValidCartState_iff_witness:
  "isValidCartState \<lparr>items = JArr [raw_line ''1'' ''Phone'' 36900 2, raw_line [] [] 0 (1 / 2)]\<rparr> \<and>
   \<not> isValidCartState \<lparr>items = JArr [raw_line ''1'' ''Phone'' 36900 0]\<rparr> \<and>
   \<not> isValidCartState \<lparr>items = JArr [JObj [(''id'', JNum (Fin 1)), (''name'', JStr ''Phone''),
        (''price'', JNum (Fin 36900)), (''quantity'', JNum (Fin 1))]]\<rparr> \<and>
   \<not> isValidCartState \<lparr>items = JArr [JNull]\<rparr> \<and>
   \<not> isValidCartState \<lparr>items = JObj []\<rparr>"
  using isValidCartState_iff [of "\<lparr>items = JArr [raw_line ''1'' ''Phone'' 36900 2, raw_line [] [] 0 (1 / 2)]\<rparr>"]
    isValidCartState_iff [of "\<lparr>items = JArr [raw_line ''1'' ''Phone'' 36900 0]\<rparr>"]
    isValidCartState_iff [of "\<lparr>items = JArr [JObj [(''id'', JNum (Fin 1)), (''name'', JStr ''Phone''),
        (''price'', JNum (Fin 36900)), (''quantity'', JNum (Fin 1))]]\<rparr>"]
    isValidCartState_iff [of "\<lparr>items = JArr [JNull]\<rparr>"]
    isValidCartState_iff [of "\<lparr>items = JObj []\<rparr>"]
  by (simp add: raw_line_def)

section \<open>Adding a product that is not well-formed\<close>

text \<open>
  Claim C5 (as amended). \<^verbatim>\<open>addItemToCart\<close> validates nothing and signals no error: for
  every state and every product, well-formed or not, the state it returns holds a line
  item with the product's id and has lost no line item; when no line item had that id,
  the product is appended with its id, name, price and image as given.
\<close>

theorem addItemToCart_never_rejects:
  "(\<exists>it \<in> set (items (addItemToCart s p)). item_id it = product_id p) \<and>
   length (items s) \<le> length (items (addItemToCart s p)) \<and>
   (\<not> (\<exists>it \<in> set (items s). item_id it = product_id p) \<longrightarrow>
      items (addItemToCart s p) = items s @ [createCartItem p (Fin 1)])"
proof (intro conjI impI)
  have "product_id p \<in> set (map item_id (items (addItemToCart s p)))"
    by (simp add: addItemToCart_ids)
  then show "\<exists>it \<in> set (items (addItemToCart s p)). item_id it = product_id p"
    by auto
next
  have "length (map item_id (items s)) \<le> length (map item_id (items (addItemToCart s p)))"
    unfolding addItemToCart_ids by simp
  then show "length (items s) \<le> length (items (addItemToCart s p))"
    by simp
next
  assume "\<not> (\<exists>it \<in> set (items s). item_id it = product_id p)"
  then show "items (addItemToCart s p) = items s @ [createCartItem p (Fin 1)]"
    by (simp add: addItemToCart_items)
qed

theorem addItemToCart_never_rejects_witness:
  "\<not> well_formed_product nameless \<and>
   \<not> (\<exists>it \<in> set (items \<lparr>items = [phone_line 2]\<rparr>). item_id it = product_id nameless) \<and>
   items (addItemToCart \<lparr>items = [phone_line 2]\<rparr> nameless)
     = [phone_line 2, createCartItem nameless (Fin 1)]"
  using addItemToCart_never_rejects [of "\<lparr>items = [phone_line 2]\<rparr>" nameless]
  by (simp add: well_formed_product_def nameless_def phone_line_def)

text \<open>
  Claim C5 as stated fails: a product with empty id, empty name and price -5 is not
  well-formed, and \<^verbatim>\<open>addItemToCart\<close> inserts it into the empty cart.
\<close>

theorem addItemToCart_validation_counterexample:
  "\<not> well_formed_product nameless \<and>
   addItemToCart createEmptyCart nameless =
     \<lparr>items = [\<lparr>item_id = [], item_name = [], item_price = Fin (- 5), item_image = [],
                 item_quantity = Fin 1\<rparr>]\<rparr>"
  by (simp add: well_formed_product_def nameless_def addItemToCart_def findCartItemById_def
      createEmptyCart_def createCartItem_def)

lemma stored_text_nonempty: "stored_text \<noteq> []"
  by (simp add: stored_text_def)

lemma isValidCartState_createEmptyCart_raw: "isValidCartState createEmptyCart_raw"
  by (simp add: isValidCartState_def createEmptyCart_raw_def)

lemma loadCartFromStorage_unfold:
  "loadCartFromStorage getItem JSON_parse =
     (if isValidCartState \<lparr>items = safeGetFromStorage getItem JSON_parse STORAGE_KEYS_CART (JArr [])\<rparr>
      then \<lparr>items = safeGetFromStorage getItem JSON_parse STORAGE_KEYS_CART (JArr [])\<rparr>
      else createEmptyCart_raw)"
  by (simp add: loadCartFromStorage_def Let_def)

lemma loadCartFromStorage_default:
  "safeGetFromStorage getItem JSON_parse STORAGE_KEYS_CART (JArr []) = JArr [] \<Longrightarrow>
   loadCartFromStorage getItem JSON_parse = createEmptyCart_raw"
  by (simp add: loadCartFromStorage_unfold createEmptyCart_raw_def)

lemma loadCartFromStorage_valid: "isValidCartState (loadCartFromStorage getItem JSON_parse)"
  by (simp add: loadCartFromStorage_unfold isValidCartState_createEmptyCart_raw)

section \<open>Reading the cart from storage\<close>

text \<open>
  Claim C8. \<^verbatim>\<open>loadCartFromStorage\<close> returns the empty cart when reading the storage
  throws, when nothing or the empty string is stored, when parsing throws, and when the
  parsed value fails \<^verbatim>\<open>isValidCartState\<close>; when the parsed value passes, the state returned
  holds exactly that value as its items. No error leaves the function: it returns a state
  in every case, and that state is valid.
\<close>

theorem loadCartFromStorage_cases:
  "(getItem STORAGE_KEYS_CART = Throws \<longrightarrow>
      loadCartFromStorage getItem JSON_parse = createEmptyCart_raw) \<and>
   (getItem STORAGE_KEYS_CART = Returns None \<longrightarrow>
      loadCartFromStorage getItem JSON_parse = createEmptyCart_raw) \<and>
   (getItem STORAGE_KEYS_CART = Returns (Some []) \<longrightarrow>
      loadCartFromStorage getItem JSON_parse = createEmptyCart_raw) \<and>
   (\<forall>saved. getItem STORAGE_KEYS_CART = Returns (Some saved) \<and> saved \<noteq> [] \<and> JSON_parse saved = Throws \<longrightarrow>
      loadCartFromStorage getItem JSON_parse = createEmptyCart_raw) \<and>
   (\<forall>saved v. getItem STORAGE_KEYS_CART = Returns (Some saved) \<and> saved \<noteq> [] \<and>
        JSON_parse saved = Returns v \<longrightarrow>
      (\<not> isValidCartState \<lparr>items = v\<rparr> \<longrightarrow>
         loadCartFromStorage getItem JSON_parse = createEmptyCart_raw) \<and>
      (isValidCartState \<lparr>items = v\<rparr> \<longrightarrow>
         loadCartFromStorage getItem JSON_parse = \<lparr>items = v\<rparr>)) \<and>
   isValidCartState (loadCartFromStorage getItem JSON_parse) \<and>
   items createEmptyCart_raw = JArr []"
proof (intro conjI allI impI)
  assume "getItem STORAGE_KEYS_CART = Throws"
  then show "loadCartFromStorage getItem JSON_parse = createEmptyCart_raw"
    by (simp add: loadCartFromStorage_default safeGetFromStorage_def)
next
  assume "getItem STORAGE_KEYS_CART = Returns None"
  then show "loadCartFromStorage getItem JSON_parse = createEmptyCart_raw"
    by (simp add: loadCartFromStorage_default safeGetFromStorage_def)
next
  assume "getItem STORAGE_KEYS_CART = Returns (Some [])"
  then show "loadCartFromStorage getItem JSON_parse = createEmptyCart_raw"
    by (simp add: loadCartFromStorage_default safeGetFromStorage_def)
next
  fix saved
  assume "getItem STORAGE_KEYS_CART = Returns (Some saved) \<and> saved \<noteq> [] \<and> JSON_parse saved = Throws"
  then show "loadCartFromStorage getItem JSON_parse = createEmptyCart_raw"
    by (simp add: loadCartFromStorage_default safeGetFromStorage_def)
next
  fix saved v
  assume read: "getItem STORAGE_KEYS_CART = Returns (Some saved) \<and> saved \<noteq> [] \<and>
    JSON_parse saved = Returns v"
    and invalid: "\<not> isValidCartState \<lparr>items = v\<rparr>"
  from read have "safeGetFromStorage getItem JSON_parse STORAGE_KEYS_CART (JArr []) = v"
    by (simp add: safeGetFromStorage_def)
  with invalid show "loadCartFromStorage getItem JSON_parse = createEmptyCart_raw"
    by (simp add: loadCartFromStorage_unfold)
next
  fix saved v
  assume read: "getItem STORAGE_KEYS_CART = Returns (Some saved) \<and> saved \<noteq> [] \<and>
    JSON_parse saved = Returns v"
    and valid: "isValidCartState \<lparr>items = v\<rparr>"
  from read have "safeGetFromStorage getItem JSON_parse STORAGE_KEYS_CART (JArr []) = v"
    by (simp add: safeGetFromStorage_def)
  with valid show "loadCartFromStorage getItem JSON_parse = \<lparr>items = v\<rparr>"
    by (simp add: loadCartFromStorage_unfold)
next
  show "isValidCartState (loadCartFromStorage getItem JSON_parse)"
    by (rule loadCartFromStorage_valid)
next
  show "items createEmptyCart_raw = JArr []"
    by (simp add: createEmptyCart_raw_def)
qed

theorem loadCartFromStorage_cases_witness:
  "loadCartFromStorage (\<lambda>key. Throws) (sample_parse JNull) = createEmptyCart_raw \<and>
   loadCartFromStorage (\<lambda>key. Returns None) (sample_parse JNull) = createEmptyCart_raw \<and>
   loadCartFromStorage (\<lambda>key. Returns (Some [])) (sample_parse JNull) = createEmptyCart_raw \<and>
   loadCartFromStorage sample_getItem (\<lambda>saved. Throws) = createEmptyCart_raw \<and>
   loadCartFromStorage sample_getItem (sample_parse (JArr [raw_line ''1'' ''Phone'' 36900 0]))
     = createEmptyCart_raw \<and>
   loadCartFromStorage sample_getItem (sample_parse (JStr ''cart'')) = createEmptyCart_raw \<and>
   loadCartFromStorage sample_getItem
       (sample_parse (JArr [raw_line ''1'' ''Phone'' 36900 1, raw_line ''2'' ''Pad'' 7490 3]))
     = \<lparr>items = JArr [raw_line ''1'' ''Phone'' 36900 1, raw_line ''2'' ''Pad'' 7490 3]\<rparr>"
proof -
  have key: "sample_getItem STORAGE_KEYS_CART = Returns (Some stored_text)"
    by (simp add: sample_getItem_def STORAGE_KEYS_CART_def)
  have parse: "sample_parse v stored_text = Returns v" for v
    by (simp add: sample_parse_def)
  have bad: "\<not> isValidCartState \<lparr>items = JArr [raw_line ''1'' ''Phone'' 36900 0]\<rparr>"
    "\<not> isValidCartState \<lparr>items = JStr ''cart''\<rparr>"
    by (simp_all add: isValidCartState_def isValidCartItem_def raw_line_def)
  have good: "isValidCartState
      \<lparr>items = JArr [raw_line ''1'' ''Phone'' 36900 1, raw_line ''2'' ''Pad'' 7490 3]\<rparr>"
    by (simp add: isValidCartState_def isValidCartItem_def raw_line_def)
  show ?thesis
    using loadCartFromStorage_cases [of "\<lambda>key. Throws" "sample_parse JNull"]
      loadCartFromStorage_cases [of "\<lambda>key. Returns None" "sample_parse JNull"]
      loadCartFromStorage_cases [of "\<lambda>key. Returns (Some [])" "sample_parse JNull"]
      loadCartFromStorage_cases [of sample_getItem "\<lambda>saved. Throws"]
      loadCartFromStorage_cases [of sample_getItem
        "sample_parse (JArr [raw_line ''1'' ''Phone'' 36900 0])"]
      loadCartFromStorage_cases [of sample_getItem "sample_parse (JStr ''cart'')"]
      loadCartFromStorage_cases [of sample_getItem
        "sample_parse (JArr [raw_line ''1'' ''Phone'' 36900 1, raw_line ''2'' ''Pad'' 7490 3])"]
      key parse bad good stored_text_nonempty
    by simp
qed

text \<open>
  Claim C10. There is an array of two line-item records, each accepted by
  \<^verbatim>\<open>isValidCartItem\<close>, both with the id \<^verbatim>\<open>'1'\<close>; whenever the storage holds a text that
  parses to it, \<^verbatim>\<open>loadCartFromStorage\<close> returns a state with both records, neither the
  empty cart nor a merged line.
\<close>

theorem loadCartFromStorage_accepts_duplicate_ids:
  assumes "getItem STORAGE_KEYS_CART = Returns (Some saved)" and "saved \<noteq> []"
    and "JSON_parse saved = Returns duplicate_snapshot"
  shows "duplicate_snapshot = JArr [raw_line ''1'' ''Phone'' 36900 1, raw_line ''1'' ''Phone'' 36900 2] \<and>
    isValidCartItem (raw_line ''1'' ''Phone'' 36900 1) \<and>
    isValidCartItem (raw_line ''1'' ''Phone'' 36900 2) \<and>
    getProp (raw_line ''1'' ''Phone'' 36900 1) ''id'' = getProp (raw_line ''1'' ''Phone'' 36900 2) ''id'' \<and>
    loadCartFromStorage getItem JSON_parse =
      \<lparr>items = JArr [raw_line ''1'' ''Phone'' 36900 1, raw_line ''1'' ''Phone'' 36900 2]\<rparr> \<and>
    loadCartFromStorage getItem JSON_parse \<noteq> createEmptyCart_raw"
proof -
  have valid: "isValidCartItem (raw_line ''1'' ''Phone'' 36900 1)"
    "isValidCartItem (raw_line ''1'' ''Phone'' 36900 2)"
    by (simp_all add: isValidCartItem_def raw_line_def)
  then have "isValidCartState \<lparr>items = duplicate_snapshot\<rparr>"
    by (simp add: isValidCartState_def duplicate_snapshot_def)
  moreover from assms
  have "safeGetFromStorage getItem JSON_parse STORAGE_KEYS_CART (JArr []) = duplicate_snapshot"
    by (simp add: safeGetFromStorage_def)
  ultimately have "loadCartFromStorage getItem JSON_parse = \<lparr>items = duplicate_snapshot\<rparr>"
    by (simp add: loadCartFromStorage_unfold)
  with valid show ?thesis
    by (simp add: duplicate_snapshot_def createEmptyCart_raw_def raw_line_def)
qed

theorem loadCartFromStorage_accepts_duplicate_ids_witness:
  "sample_getItem STORAGE_KEYS_CART = Returns (Some stored_text) \<and>
   stored_text \<noteq> [] \<and>
   sample_parse duplicate_snapshot stored_text = Returns duplicate_snapshot \<and>
   loadCartFromStorage sample_getItem (sample_parse duplicate_snapshot) =
      \<lparr>items = JArr [raw_line ''1'' ''Phone'' 36900 1, raw_line ''1'' ''Phone'' 36900 2]\<rparr> \<and>
   loadCartFromStorage sample_getItem (sample_parse duplicate_snapshot) \<noteq> createEmptyCart_raw"
proof -
  have key: "sample_getItem STORAGE_KEYS_CART = Returns (Some stored_text)"
    by (simp add: sample_getItem_def STORAGE_KEYS_CART_def)
  have parse: "sample_parse duplicate_snapshot stored_text = Returns duplicate_snapshot"
    by (simp add: sample_parse_def)
  from loadCartFromStorage_accepts_duplicate_ids
      [of sample_getItem stored_text "sample_parse duplicate_snapshot",
       OF key stored_text_nonempty parse]
    key parse stored_text_nonempty
  show ?thesis
    by (simp add: duplicate_snapshot_def createEmptyCart_raw_def)
qed

end
